theory Spec2Isabelle
  imports Complex_Main
begin

section \<open>Item tree: name uniquification (app/core/gimpitemtree.c)\<close>

subsection \<open>C library functions used by \<open>gimp_item_tree_uniquefy_name\<close>\<close>

text \<open>
  A \<open>gint\<close> is a 32-bit two's complement integer. \<open>to_gint\<close> is the conversion of a
  wider value to \<open>gint\<close>; the increment \<open>number++\<close> wraps around with it (the C standard
  leaves the overflow undefined, the compilers GIMP is built with wrap).
\<close>

definition INT_MAX :: int where
  "INT_MAX = 2147483647"

definition INT_MIN :: int where
  "INT_MIN = - 2147483648"

definition to_gint :: "int \<Rightarrow> int" where
  "to_gint v = (v + 2147483648) mod 4294967296 - 2147483648"

text \<open>
  \<open>strrchr (s, c)\<close>: the position of the last occurrence of \<open>c\<close> in \<open>s\<close>, \<open>None\<close> for
  the null pointer.
\<close>

fun strrchr :: "string \<Rightarrow> char \<Rightarrow> nat option" where
  "strrchr [] c = None"
| "strrchr (x # xs) c =
     (case strrchr xs c of
        Some i \<Rightarrow> Some (Suc i)
      | None \<Rightarrow> if x = c then Some 0 else None)"

text \<open>\<open>g_strdup_printf ("%d", n)\<close>: decimal digits, most significant first, \<open>-\<close> in front
  of a negative number.\<close>

definition digit_char :: "nat \<Rightarrow> char" where
  "digit_char d = ''0123456789'' ! d"

fun print_nat :: "nat \<Rightarrow> string" where
  "print_nat n =
     (if n < 10 then [digit_char n]
      else print_nat (n div 10) @ [digit_char (n mod 10)])"

declare print_nat.simps [simp del]

definition printf_d :: "int \<Rightarrow> string" where
  "printf_d n = (if n < 0 then CHR ''-'' # print_nat (nat (- n)) else print_nat (nat n))"

text \<open>
  \<open>atoi (s)\<close> is \<open>(int) strtol (s, NULL, 10)\<close>: leading white space is skipped, one
  optional sign is read, then digits up to the first character that is not a digit.
  \<open>strtol\<close> saturates at the range of \<open>long\<close> (64 bits) and the cast keeps the low
  32 bits.
\<close>

definition isdigit :: "char \<Rightarrow> bool" where
  "isdigit c = (48 \<le> (of_char c :: nat) \<and> (of_char c :: nat) \<le> 57)"

definition isspace :: "char \<Rightarrow> bool" where
  "isspace c = (c = CHR '' '' \<or> (9 \<le> (of_char c :: nat) \<and> (of_char c :: nat) \<le> 13))"

fun atoi_digits :: "int \<Rightarrow> string \<Rightarrow> int" where
  "atoi_digits acc [] = acc"
| "atoi_digits acc (c # cs) =
     (if isdigit c then atoi_digits (acc * 10 + (of_char c - 48)) cs else acc)"

definition strtol10 :: "string \<Rightarrow> int" where
  "strtol10 s =
     (case dropWhile isspace s of
        [] \<Rightarrow> 0
      | c # cs \<Rightarrow>
          if c = CHR ''-'' then - atoi_digits 0 cs
          else if c = CHR ''+'' then atoi_digits 0 cs
          else atoi_digits 0 (c # cs))"

definition atoi :: "string \<Rightarrow> int" where
  "atoi s = to_gint (max (- 9223372036854775808) (min 9223372036854775807 (strtol10 s)))"

subsection \<open>The collision loop\<close>

text \<open>
  Lines 598--621 of the loop body: \<open>name\<close> is a copy of the item's name, \<open>ext\<close> the last
  \<open>#\<close> in it. When the text after \<open>ext\<close> prints back from \<open>atoi\<close> unchanged, the copy is
  cut at \<open>ext\<close> and \<open>number\<close> is that integer; otherwise the copy is kept and \<open>number\<close>
  is 0. The result is the pair (\<open>name\<close>, \<open>number\<close>) before \<open>number++\<close>.
\<close>

definition split_ext :: "string \<Rightarrow> string \<times> int" where
  "split_ext name =
     (case strrchr name CHR ''#'' of
        None \<Rightarrow> (name, 0)
      | Some ext \<Rightarrow>
          let number = atoi (drop (Suc ext) name);
              ext_str = printf_d number
          in if ext_str = drop (Suc ext) name then (take ext name, number)
             else (name, 0))"

text \<open>One iteration of the loop: the item's new name is \<open>"%s#%d"\<close> of the copy and
  \<open>number + 1\<close>.\<close>

definition uniquefy_step :: "string \<Rightarrow> string" where
  "uniquefy_step name =
     (let (stem, number) = split_ext name
      in stem @ ''#'' @ printf_d (to_gint (number + 1)))"

text \<open>
  \<open>while (g_hash_table_lookup (private->name_hash, gimp_object_get_name (item)))\<close>:
  the loop changes the item's name only, the table is read. Nothing in the code bounds
  the number of iterations, so the loop is a partial function and \<open>None\<close> stands for a
  run that never leaves it.
\<close>

partial_function (option) uniquefy_loop :: "(string \<rightharpoonup> 'a) \<Rightarrow> string \<Rightarrow> string option" where
  "uniquefy_loop h name =
     (if h name \<noteq> None then uniquefy_loop h (uniquefy_step name) else Some name)"

section \<open>Item tree: the tree and its operations (app/core/gimpitemtree.c)\<close>

subsection \<open>State\<close>

text \<open>
  Items, containers and the image are objects outside the file; the tree reaches them
  through pointers. An item is identified by a number (its address), a container is
  either the tree's own \<open>tree->container\<close> or the children container of a group item.
  The record holds \<open>GimpItemTreePrivate\<close> (\<open>tree_image\<close>, \<open>active_item\<close>, \<open>name_hash\<close>)
  and what the operations read and write in the collaborating objects.
\<close>

type_synonym item = nat

datatype container = TreeContainer | Children item

datatype undo = ItemReorder string item | ItemRename string item

record item_tree =
  tree_image :: nat
  active_item :: "item option"
  name_hash :: "string \<rightharpoonup> item"
  stack :: "container \<Rightarrow> item list"
  has_children :: "item \<Rightarrow> bool"
  is_item_type :: "item \<Rightarrow> bool"
  item_parent :: "item \<Rightarrow> item option"
  item_name :: "item \<Rightarrow> string"
  item_image :: "item \<Rightarrow> nat"
  item_removed :: "item \<Rightarrow> bool"
  undo_stack :: "undo list"

subsection \<open>Collaborators: GimpContainer, GimpViewable, GimpItem, undo\<close>

text \<open>
  Modelled from the spec: the ordered child container (gimpcontainer.c, gimplist.c), the
  parent pointer and the children of a viewable (gimpviewable.c), the container, index
  and attachment of an item (gimpitem.c) and the undo push (gimpimage-undo-push.c) are
  not in the two source files. A container is an ordered list of items; an index of
  \<open>-1\<close> means "not a child" when returned and "at the end" when given to an insertion.
\<close>

definition CLAMP :: "int \<Rightarrow> int \<Rightarrow> int \<Rightarrow> int" where
  "CLAMP x low high = (if x > high then high else if x < low then low else x)"

fun child_index :: "item list \<Rightarrow> item \<Rightarrow> int" where
  "child_index [] obj = - 1"
| "child_index (x # xs) obj =
     (if x = obj then 0
      else let r = child_index xs obj in if r = - 1 then - 1 else r + 1)"

definition list_insert :: "item list \<Rightarrow> item \<Rightarrow> int \<Rightarrow> item list" where
  "list_insert xs obj index =
     (if index = - 1 then xs @ [obj]
      else if 0 \<le> index \<and> index \<le> int (length xs)
        then take (nat index) xs @ obj # drop (nat index) xs
      else xs)"

definition gimp_container_get_n_children :: "item_tree \<Rightarrow> container \<Rightarrow> int" where
  "gimp_container_get_n_children s c = int (length (stack s c))"

definition gimp_container_get_child_index :: "item_tree \<Rightarrow> container \<Rightarrow> item \<Rightarrow> int" where
  "gimp_container_get_child_index s c obj = child_index (stack s c) obj"

definition gimp_container_get_child_by_index :: "item_tree \<Rightarrow> container \<Rightarrow> int \<Rightarrow> item option" where
  "gimp_container_get_child_by_index s c index =
     (if 0 \<le> index \<and> index < int (length (stack s c)) then Some (stack s c ! nat index)
      else None)"

definition gimp_container_insert :: "item_tree \<Rightarrow> container \<Rightarrow> item \<Rightarrow> int \<Rightarrow> item_tree" where
  "gimp_container_insert s c obj index =
     s\<lparr>stack := (stack s)(c := list_insert (stack s c) obj index)\<rparr>"

definition gimp_container_remove :: "item_tree \<Rightarrow> container \<Rightarrow> item \<Rightarrow> item_tree" where
  "gimp_container_remove s c obj = s\<lparr>stack := (stack s)(c := remove1 obj (stack s c))\<rparr>"

definition gimp_container_reorder :: "item_tree \<Rightarrow> container \<Rightarrow> item \<Rightarrow> int \<Rightarrow> item_tree" where
  "gimp_container_reorder s c obj new_index =
     s\<lparr>stack := (stack s)(c := list_insert (remove1 obj (stack s c)) obj new_index)\<rparr>"

definition gimp_viewable_get_children :: "item_tree \<Rightarrow> item \<Rightarrow> container option" where
  "gimp_viewable_get_children s i = (if has_children s i then Some (Children i) else None)"

definition gimp_viewable_set_parent :: "item_tree \<Rightarrow> item \<Rightarrow> item option \<Rightarrow> item_tree" where
  "gimp_viewable_set_parent s i p = s\<lparr>item_parent := (item_parent s)(i := p)\<rparr>"

definition gimp_item_get_parent :: "item_tree \<Rightarrow> item \<Rightarrow> item option" where
  "gimp_item_get_parent s i = item_parent s i"

definition gimp_item_get_container :: "item_tree \<Rightarrow> item \<Rightarrow> container" where
  "gimp_item_get_container s i =
     (case item_parent s i of None \<Rightarrow> TreeContainer | Some p \<Rightarrow> Children p)"

definition gimp_item_get_index :: "item_tree \<Rightarrow> item \<Rightarrow> int" where
  "gimp_item_get_index s i = gimp_container_get_child_index s (gimp_item_get_container s i) i"

definition gimp_item_get_image :: "item_tree \<Rightarrow> item \<Rightarrow> nat" where
  "gimp_item_get_image s i = item_image s i"

definition gimp_item_removed :: "item_tree \<Rightarrow> item \<Rightarrow> item_tree" where
  "gimp_item_removed s i = s\<lparr>item_removed := (item_removed s)(i := True)\<rparr>"

definition gimp_image_undo_push_item_reorder :: "item_tree \<Rightarrow> string \<Rightarrow> item \<Rightarrow> item_tree" where
  "gimp_image_undo_push_item_reorder s undo_desc i =
     s\<lparr>undo_stack := undo_stack s @ [ItemReorder undo_desc i]\<rparr>"

definition gimp_image_undo_push_item_rename :: "item_tree \<Rightarrow> string \<Rightarrow> item \<Rightarrow> item_tree" where
  "gimp_image_undo_push_item_rename s undo_desc i =
     s\<lparr>undo_stack := undo_stack s @ [ItemRename undo_desc i]\<rparr>"

text \<open>
  Modelled from the spec: an item is attached iff a container of the tree contains it,
  directly or through the children of attached group items.
\<close>

inductive gimp_item_is_attached :: "item_tree \<Rightarrow> item \<Rightarrow> bool" for s :: item_tree where
  toplevel: "i \<in> set (stack s TreeContainer) \<Longrightarrow> gimp_item_is_attached s i"
| nested: "gimp_item_is_attached s p \<Longrightarrow> has_children s p \<Longrightarrow> i \<in> set (stack s (Children p)) \<Longrightarrow>
           gimp_item_is_attached s i"

subsection \<open>The operations of the file\<close>

text \<open>\<open>gimp_item_tree_get_item_by_name\<close>: a lookup in the name table.\<close>

definition gimp_item_tree_get_item_by_name :: "item_tree \<Rightarrow> string \<Rightarrow> item option" where
  "gimp_item_tree_get_item_by_name s name = name_hash s name"

text \<open>
  \<open>gimp_item_tree_uniquefy_name\<close> (lines 580--634). With a new name, the item's current
  name is taken out of the table and the item is renamed; then the collision loop runs;
  then the item is entered under its final name. \<open>None\<close>: the loop does not end.
\<close>

definition gimp_item_tree_uniquefy_name :: "item_tree \<Rightarrow> item \<Rightarrow> string option \<Rightarrow> item_tree option" where
  "gimp_item_tree_uniquefy_name s i new_name =
     (let s1 = (case new_name of
                  Some n \<Rightarrow> s\<lparr>name_hash := (name_hash s)(item_name s i := None),
                              item_name := (item_name s)(i := n)\<rparr>
                | None \<Rightarrow> s)
      in case uniquefy_loop (name_hash s1) (item_name s1 i) of
           None \<Rightarrow> None
         | Some final \<Rightarrow>
             Some (s1\<lparr>item_name := (item_name s1)(i := final),
                      name_hash := (name_hash s1)(final \<mapsto> i)\<rparr>))"

text \<open>
  \<open>gimp_item_tree_add_item\<close> (lines 390--419). A failed \<open>g_return_if_fail\<close> leaves the
  tree as it is.
\<close>

definition gimp_item_tree_add_item :: "item_tree \<Rightarrow> item \<Rightarrow> item option \<Rightarrow> int \<Rightarrow> item_tree option" where
  "gimp_item_tree_add_item s i parent position =
     (if gimp_item_is_attached s i then Some s
      else if gimp_item_get_image s i \<noteq> tree_image s then Some s
      else case gimp_item_tree_uniquefy_name s i None of
             None \<Rightarrow> None
           | Some s1 \<Rightarrow>
               (case parent of
                  None \<Rightarrow> Some (gimp_container_insert s1 TreeContainer i position)
                | Some p \<Rightarrow>
                    (case gimp_viewable_get_children s1 p of
                       None \<Rightarrow> Some (gimp_viewable_set_parent s1 i (Some p))
                     | Some c \<Rightarrow>
                         Some (gimp_container_insert (gimp_viewable_set_parent s1 i (Some p))
                                 c i position))))"

text \<open>
  \<open>gimp_item_tree_remove_item\<close> (lines 421--472): the returned pointer and the tree
  afterwards. A failed precondition returns \<open>NULL\<close> and changes nothing.
\<close>

definition gimp_item_tree_remove_item :: "item_tree \<Rightarrow> item \<Rightarrow> item option \<Rightarrow> item option \<times> item_tree" where
  "gimp_item_tree_remove_item s i new_active =
     (if \<not> gimp_item_is_attached s i then (None, s)
      else if gimp_item_get_image s i \<noteq> tree_image s then (None, s)
      else
        let parent = gimp_item_get_parent s i;
            container = gimp_item_get_container s i;
            index = gimp_item_get_index s i;
            s1 = gimp_container_remove s container i;
            s2 = (if parent \<noteq> None then gimp_viewable_set_parent s1 i None else s1);
            s3 = gimp_item_removed s2 i;
            chosen =
              (if new_active = None then
                 let n_children = gimp_container_get_n_children s3 container
                 in if n_children > 0
                    then gimp_container_get_child_by_index s3 container
                           (CLAMP index 0 (n_children - 1))
                    else if parent \<noteq> None then parent
                    else new_active
               else new_active)
        in (chosen, s3))"

text \<open>
  \<open>gimp_item_tree_reorder_item\<close> (lines 474--548): the returned flag and the tree
  afterwards.
\<close>

definition gimp_item_tree_reorder_item ::
  "item_tree \<Rightarrow> item \<Rightarrow> item option \<Rightarrow> int \<Rightarrow> bool \<Rightarrow> string \<Rightarrow> bool \<times> item_tree" where
  "gimp_item_tree_reorder_item s i new_parent new_index push_undo undo_desc =
     (if \<not> is_item_type s i then (False, s)
      else if \<not> gimp_item_is_attached s i then (False, s)
      else if gimp_item_get_image s i \<noteq> tree_image s then (False, s)
      else if \<not> (case new_parent of None \<Rightarrow> True | Some p \<Rightarrow> is_item_type s p) then (False, s)
      else if \<not> (case new_parent of None \<Rightarrow> True | Some p \<Rightarrow> gimp_item_is_attached s p)
        then (False, s)
      else if \<not> (case new_parent of None \<Rightarrow> True
                  | Some p \<Rightarrow> gimp_item_get_image s p = tree_image s) then (False, s)
      else if \<not> (case new_parent of None \<Rightarrow> True
                  | Some p \<Rightarrow> gimp_viewable_get_children s p \<noteq> None) then (False, s)
      else
        let container = gimp_item_get_container s i;
            new_container = (case new_parent of
                               Some p \<Rightarrow> the (gimp_viewable_get_children s p)
                             | None \<Rightarrow> TreeContainer);
            n_items = gimp_container_get_n_children s new_container;
            n_items = (if new_container = container then n_items - 1 else n_items);
            new_index = CLAMP new_index 0 n_items
        in if new_container \<noteq> container \<or> new_index \<noteq> gimp_item_get_index s i then
             let s1 = (if push_undo then gimp_image_undo_push_item_reorder s undo_desc i else s);
                 s2 = (if new_container \<noteq> container then
                         gimp_container_insert
                           (gimp_viewable_set_parent (gimp_container_remove s1 container i)
                              i new_parent)
                           new_container i new_index
                       else gimp_container_reorder s1 container i new_index)
             in (True, s2)
           else (True, s))"

text \<open>\<open>gimp_item_tree_rename_item\<close> (lines 550--575); \<open>strcmp\<close> is string inequality.\<close>

definition gimp_item_tree_rename_item ::
  "item_tree \<Rightarrow> item \<Rightarrow> string option \<Rightarrow> bool \<Rightarrow> string \<Rightarrow> item_tree option" where
  "gimp_item_tree_rename_item s i new_name push_undo undo_desc =
     (if \<not> gimp_item_is_attached s i then Some s
      else if gimp_item_get_image s i \<noteq> tree_image s then Some s
      else case new_name of
             None \<Rightarrow> Some s
           | Some n \<Rightarrow>
               if n \<noteq> item_name s i then
                 gimp_item_tree_uniquefy_name
                   (if push_undo then gimp_image_undo_push_item_rename s undo_desc i else s)
                   i (Some n)
               else Some s)"

text \<open>
  \<open>gimp_item_tree_new\<close>: an empty root container, an empty name table and no active
  item; \<open>names\<close> are the names the items of the image carry before they are added.
\<close>

definition gimp_item_tree_new :: "nat \<Rightarrow> (item \<Rightarrow> string) \<Rightarrow> item_tree" where
  "gimp_item_tree_new img names =
     \<lparr>tree_image = img, active_item = None, name_hash = Map.empty, stack = (\<lambda>c. []),
      has_children = (\<lambda>i. False), is_item_type = (\<lambda>i. True), item_parent = (\<lambda>i. None),
      item_name = names, item_image = (\<lambda>i. img), item_removed = (\<lambda>i. False),
      undo_stack = []\<rparr>"

section \<open>Cage coefficient calculation (app/gegl/gimpoperationcagecoefcalc.c)\<close>

subsection \<open>Data and collaborators\<close>

text \<open>
  \<open>GimpVector2\<close> is a pair of \<open>gdouble\<close>; the cage configuration holds the number of
  vertices (a count, so a natural number) and the array of vertices. The type \<open>'f\<close>
  stands for the floating-point values.
\<close>

record 'f GimpVector2 =
  vec_x :: 'f
  vec_y :: 'f

record 'f GimpCageConfig =
  cage_vertice_number :: nat
  cage_vertices :: "'f GimpVector2 list"

text \<open>
  The kernel computes with the C operators on \<open>gdouble\<close> and \<open>gfloat\<close>, with \<open>sqrt\<close>,
  \<open>log\<close>, \<open>atan2\<close> and \<open>isnan\<close> of the C library, with \<open>gimp_vector2_normalize\<close> of
  libgimpmath and with \<open>gimp_cage_config_point_inside\<close> of gimpcageconfig.c. None of
  them is in the file, so they are parameters of the model, collected in one record:
  the operations on doubles, the conversion \<open>of_gint\<close> of an integer to a double (also
  used for the literals \<open>0.0\<close>, \<open>1.0\<close>, \<open>2.0\<close>, \<open>4.0\<close>), the literal \<open>0.000000001\<close>, the
  constant \<open>M_PI\<close> and the narrowing \<open>to_gfloat\<close> that an assignment to a \<open>gfloat\<close>
  performs. An operation on two \<open>gfloat\<close> operands is computed in single precision:
  the operation on doubles followed by \<open>to_gfloat\<close>.
\<close>

record 'f env =
  plus_d :: "'f \<Rightarrow> 'f \<Rightarrow> 'f"
  minus_d :: "'f \<Rightarrow> 'f \<Rightarrow> 'f"
  times_d :: "'f \<Rightarrow> 'f \<Rightarrow> 'f"
  divide_d :: "'f \<Rightarrow> 'f \<Rightarrow> 'f"
  uminus_d :: "'f \<Rightarrow> 'f"
  sqrt_d :: "'f \<Rightarrow> 'f"
  log_d :: "'f \<Rightarrow> 'f"
  atan2_d :: "'f \<Rightarrow> 'f \<Rightarrow> 'f"
  less_d :: "'f \<Rightarrow> 'f \<Rightarrow> bool"
  isnan :: "'f \<Rightarrow> bool"
  of_gint :: "int \<Rightarrow> 'f"
  lit_1e_9 :: 'f
  M_PI :: 'f
  to_gfloat :: "'f \<Rightarrow> 'f"
  gimp_vector2_normalize :: "'f GimpVector2 \<Rightarrow> 'f GimpVector2"
  gimp_cage_config_point_inside :: "'f GimpCageConfig \<Rightarrow> int \<Rightarrow> int \<Rightarrow> bool"

definition plus_f :: "'f env \<Rightarrow> 'f \<Rightarrow> 'f \<Rightarrow> 'f" where
  "plus_f E a b = to_gfloat E (plus_d E a b)"

definition minus_f :: "'f env \<Rightarrow> 'f \<Rightarrow> 'f \<Rightarrow> 'f" where
  "minus_f E a b = to_gfloat E (minus_d E a b)"

definition times_f :: "'f env \<Rightarrow> 'f \<Rightarrow> 'f \<Rightarrow> 'f" where
  "times_f E a b = to_gfloat E (times_d E a b)"

definition divide_f :: "'f env \<Rightarrow> 'f \<Rightarrow> 'f \<Rightarrow> 'f" where
  "divide_f E a b = to_gfloat E (divide_d E a b)"

text \<open>
  The output buffer is float memory: a store from addresses (counted in floats) to
  values; \<open>coef\<close> is an address in it. \<open>GeglRectangle\<close> and one step of the buffer
  iterator (its \<open>roi\<close>, \<open>length\<close> and \<open>data[0]\<close>) are records; the iterator itself, which
  is outside the file, is the list of the steps it yields.
\<close>

type_synonym 'f store = "nat \<Rightarrow> 'f"

record GeglRectangle =
  rect_x :: int
  rect_y :: int
  rect_width :: int
  rect_height :: int

record iterator_step =
  it_roi :: GeglRectangle
  it_length :: nat
  it_data :: nat

datatype fault = NullPointerDereference

subsection \<open>The collinearity test\<close>

text \<open>\<open>gimp_operation_cage_coef_calc_is_on_straight\<close> (lines 156--175); \<open>deter\<close> is a
  \<open>gfloat\<close>.\<close>

definition deter :: "'f env \<Rightarrow> 'f GimpVector2 \<Rightarrow> 'f GimpVector2 \<Rightarrow> 'f GimpVector2 \<Rightarrow> 'f" where
  "deter E d1 d2 p =
     (let v1 = \<lparr>vec_x = minus_d E (vec_x p) (vec_x d1), vec_y = minus_d E (vec_y p) (vec_y d1)\<rparr>;
          v2 = \<lparr>vec_x = minus_d E (vec_x d2) (vec_x d1), vec_y = minus_d E (vec_y d2) (vec_y d1)\<rparr>;
          v1 = gimp_vector2_normalize E v1;
          v2 = gimp_vector2_normalize E v2
      in to_gfloat E (minus_d E (times_d E (vec_x v1) (vec_y v2)) (times_d E (vec_x v2) (vec_y v1))))"

definition gimp_operation_cage_coef_calc_is_on_straight ::
  "'f env \<Rightarrow> 'f GimpVector2 \<Rightarrow> 'f GimpVector2 \<Rightarrow> 'f GimpVector2 \<Rightarrow> bool" where
  "gimp_operation_cage_coef_calc_is_on_straight E d1 d2 p =
     (less_d E (deter E d1 d2 p) (lit_1e_9 E) \<and>
      less_d E (uminus_d E (lit_1e_9 E)) (deter E d1 d2 p))"

subsection \<open>The body of the loop over the edges\<close>

text \<open>The local variables of lines 219--242 for the pixel \<open>(x, y)\<close> and the edge \<open>j\<close>.\<close>

record 'f edge_locals =
  l_v1 :: "'f GimpVector2"
  l_v2 :: "'f GimpVector2"
  l_p :: "'f GimpVector2"
  l_Q :: 'f
  l_S :: 'f
  l_R :: 'f
  l_BA :: 'f
  l_SRT :: 'f
  l_L0 :: 'f
  l_L1 :: 'f
  l_A0 :: 'f
  l_A1 :: 'f
  l_A10 :: 'f
  l_L10 :: 'f

definition edge_locals :: "'f env \<Rightarrow> 'f GimpCageConfig \<Rightarrow> int \<Rightarrow> int \<Rightarrow> nat \<Rightarrow> 'f edge_locals" where
  "edge_locals E config x y j =
     (let v1 = cage_vertices config ! j;
          v2 = cage_vertices config ! ((j + 1) mod cage_vertice_number config);
          p = \<lparr>vec_x = of_gint E x, vec_y = of_gint E y\<rparr>;
          a_x = minus_d E (vec_x v2) (vec_x v1);
          a_y = minus_d E (vec_y v2) (vec_y v1);
          b_x = minus_d E (vec_x v1) (of_gint E x);
          b_y = minus_d E (vec_y v1) (of_gint E y);
          Q = to_gfloat E (plus_d E (times_d E a_x a_x) (times_d E a_y a_y));
          S = to_gfloat E (plus_d E (times_d E b_x b_x) (times_d E b_y b_y));
          R = to_gfloat E (times_d E (of_gint E 2) (plus_d E (times_d E a_x b_x) (times_d E a_y b_y)));
          BA = to_gfloat E (minus_d E (times_d E b_x a_y) (times_d E b_y a_x));
          SRT = to_gfloat E
                  (sqrt_d E (minus_d E (times_d E (times_d E (of_gint E 4) S) Q) (times_f E R R)));
          L0 = to_gfloat E (log_d E S);
          L1 = to_gfloat E (log_d E (plus_f E (plus_f E S Q) R));
          A0 = to_gfloat E (divide_d E (atan2_d E R SRT) SRT);
          A1 = to_gfloat E
                 (divide_d E (atan2_d E (plus_d E (times_d E (of_gint E 2) Q) R) SRT) SRT);
          A10 = minus_f E A1 A0;
          L10 = minus_f E L1 L0
      in \<lparr>l_v1 = v1, l_v2 = v2, l_p = p, l_Q = Q, l_S = S, l_R = R, l_BA = BA, l_SRT = SRT,
          l_L0 = L0, l_L1 = L1, l_A0 = A0, l_A1 = A1, l_A10 = A10, l_L10 = L10\<rparr>)"

text \<open>The right-hand side of line 245 (a double).\<close>

definition edge_coef_rhs :: "'f env \<Rightarrow> 'f edge_locals \<Rightarrow> 'f" where
  "edge_coef_rhs E l =
     times_d E (divide_d E (of_gint E 1) (times_d E (of_gint E 4) (M_PI E)))
       (minus_d E
          (plus_d E
             (plus_d E
                (times_d E
                   (minus_d E (times_d E (of_gint E 4) (l_S l)) (divide_f E (times_f E (l_R l) (l_R l)) (l_Q l)))
                   (l_A10 l))
                (times_d E (divide_d E (l_R l) (times_d E (of_gint E 2) (l_Q l))) (l_L10 l)))
             (l_L1 l))
          (of_gint E 2))"

text \<open>The terms added to \<open>coef[j]\<close> in line 255 and subtracted from
  \<open>coef[(j + 1) % n]\<close> in line 256 (doubles).\<close>

definition vertex_term_j :: "'f env \<Rightarrow> 'f edge_locals \<Rightarrow> 'f" where
  "vertex_term_j E l =
     times_d E (divide_d E (l_BA l) (times_d E (of_gint E 2) (M_PI E)))
       (minus_d E
          (divide_d E (l_L10 l) (times_d E (of_gint E 2) (l_Q l)))
          (times_d E (l_A10 l) (plus_d E (of_gint E 2) (divide_f E (l_R l) (l_Q l)))))"

definition vertex_term_next :: "'f env \<Rightarrow> 'f edge_locals \<Rightarrow> 'f" where
  "vertex_term_next E l =
     times_d E (divide_d E (l_BA l) (times_d E (of_gint E 2) (M_PI E)))
       (minus_d E
          (divide_d E (l_L10 l) (times_d E (of_gint E 2) (l_Q l)))
          (times_f E (l_A10 l) (divide_f E (l_R l) (l_Q l))))"

text \<open>
  Lines 244--257: the edge slot \<open>coef[j + n]\<close> is assigned and set to \<open>0.0\<close> when it
  holds a NaN; unless the pixel is on the straight line of the edge, \<open>coef[j]\<close> and then
  \<open>coef[(j + 1) % n]\<close> are read, changed and written back.
\<close>

definition edge_body ::
  "'f env \<Rightarrow> 'f GimpCageConfig \<Rightarrow> int \<Rightarrow> int \<Rightarrow> nat \<Rightarrow> nat \<Rightarrow> 'f store \<Rightarrow> 'f store" where
  "edge_body E config x y coef j mem =
     (let n = cage_vertice_number config;
          l = edge_locals E config x y j;
          mem1 = mem(coef + (j + n) := to_gfloat E (edge_coef_rhs E l));
          mem2 = (if isnan E (mem1 (coef + (j + n)))
                  then mem1(coef + (j + n) := to_gfloat E (of_gint E 0))
                  else mem1)
      in if \<not> gimp_operation_cage_coef_calc_is_on_straight E (l_v1 l) (l_v2 l) (l_p l) then
           let mem3 = mem2(coef + j :=
                        to_gfloat E (plus_d E (mem2 (coef + j)) (vertex_term_j E l)))
           in mem3(coef + (j + 1) mod n :=
                to_gfloat E (minus_d E (mem3 (coef + (j + 1) mod n)) (vertex_term_next E l)))
         else mem2)"

subsection \<open>The iterations and the operation\<close>

text \<open>\<open>for (j = 0; j < config->cage_vertice_number; j++)\<close>, entered at \<open>j\<close>.\<close>

function edges_loop ::
  "'f env \<Rightarrow> 'f GimpCageConfig \<Rightarrow> int \<Rightarrow> int \<Rightarrow> nat \<Rightarrow> nat \<Rightarrow> 'f store \<Rightarrow> 'f store" where
  "edges_loop E config x y coef j mem =
     (if j < cage_vertice_number config
      then edges_loop E config x y coef (j + 1) (edge_body E config x y coef j mem)
      else mem)"
  by pat_completeness auto
termination
  by (relation "measure (\<lambda>(E, config, x, y, coef, j, mem). cage_vertice_number config - j)") auto

declare edges_loop.simps [simp del]

text \<open>
  \<open>while (n_pixels--)\<close> (lines 213--270) with \<open>n_pixels\<close> pixels left, the pixel
  coordinates \<open>x\<close>, \<open>y\<close> and the cursor \<open>coef\<close>. \<open>n_pixels\<close> starts as the iterator's
  \<open>length\<close>, a number of pixels.
\<close>

fun pixels_loop ::
  "'f env \<Rightarrow> 'f GimpCageConfig \<Rightarrow> GeglRectangle \<Rightarrow> nat \<Rightarrow> int \<Rightarrow> int \<Rightarrow> nat \<Rightarrow> 'f store \<Rightarrow> 'f store" where
  "pixels_loop E config roi 0 x y coef mem = mem"
| "pixels_loop E config roi (Suc n_pixels) x y coef mem =
     (let mem1 = (if gimp_cage_config_point_inside E config x y
                  then edges_loop E config x y coef 0 mem
                  else mem);
          coef1 = coef + 2 * cage_vertice_number config;
          x1 = x + 1
      in if x1 \<ge> rect_x roi + rect_width roi
         then pixels_loop E config roi n_pixels (rect_x roi) (y + 1) coef1 mem1
         else pixels_loop E config roi n_pixels x1 y coef1 mem1)"

text \<open>\<open>while (gegl_buffer_iterator_next (it))\<close> (lines 203--271).\<close>

fun iterator_loop ::
  "'f env \<Rightarrow> 'f GimpCageConfig \<Rightarrow> iterator_step list \<Rightarrow> 'f store \<Rightarrow> 'f store" where
  "iterator_loop E config [] mem = mem"
| "iterator_loop E config (it # rest) mem =
     iterator_loop E config rest
       (pixels_loop E config (it_roi it) (it_length it) (rect_x (it_roi it)) (rect_y (it_roi it))
          (it_data it) mem)"

text \<open>
  \<open>gimp_operation_cage_coef_calc_process\<close> (lines 186--274). \<open>occc_config\<close> is the
  pointer \<open>occc->config\<close>, \<open>None\<close> for \<open>NULL\<close>, and \<open>it\<close> the steps of the iterator over
  the region of interest. Line 194 reads \<open>config->cage_vertice_number\<close> for the format,
  four lines before \<open>config\<close> is tested in line 198. The result is the returned flag and
  the memory of the buffer, or the fault of reading through a null pointer.
\<close>

definition deref :: "'a option \<Rightarrow> fault + 'a" where
  "deref p = (case p of None \<Rightarrow> Inl NullPointerDereference | Some v \<Rightarrow> Inr v)"

definition gimp_operation_cage_coef_calc_process ::
  "'f env \<Rightarrow> 'f GimpCageConfig option \<Rightarrow> iterator_step list \<Rightarrow> 'f store \<Rightarrow> fault + (bool \<times> 'f store)" where
  "gimp_operation_cage_coef_calc_process E occc_config it mem =
     (case deref occc_config of
        Inl f \<Rightarrow> Inl f
      | Inr config \<Rightarrow>
          if occc_config = None then Inr (False, mem)
          else Inr (True, iterator_loop E config it mem))"

subsection \<open>The layout and the accumulation, as the specification words them\<close>

text \<open>
  Pixel \<open>k\<close> of an iterator step, in row-major order, and the \<open>2 n\<close> slots of its
  coefficient vector: the \<open>n\<close> vertex slots first, the \<open>n\<close> edge slots after them.
\<close>

definition pixel_x :: "iterator_step \<Rightarrow> nat \<Rightarrow> int" where
  "pixel_x it k = rect_x (it_roi it) + int k mod rect_width (it_roi it)"

definition pixel_y :: "iterator_step \<Rightarrow> nat \<Rightarrow> int" where
  "pixel_y it k = rect_y (it_roi it) + int k div rect_width (it_roi it)"

definition pixel_coef :: "'f GimpCageConfig \<Rightarrow> iterator_step \<Rightarrow> nat \<Rightarrow> nat" where
  "pixel_coef config it k = it_data it + 2 * cage_vertice_number config * k"

definition pixel_slots :: "'f GimpCageConfig \<Rightarrow> iterator_step \<Rightarrow> nat \<Rightarrow> nat set" where
  "pixel_slots config it k =
     {pixel_coef config it k ..< pixel_coef config it k + 2 * cage_vertice_number config}"

definition step_slots :: "'f GimpCageConfig \<Rightarrow> iterator_step \<Rightarrow> nat set" where
  "step_slots config it =
     {it_data it ..< it_data it + 2 * cage_vertice_number config * it_length it}"

text \<open>The value of the edge slot of edge \<open>j\<close>: the formula, with \<open>0.0\<close> in place of a
  NaN.\<close>

definition edge_slot_value :: "'f env \<Rightarrow> 'f GimpCageConfig \<Rightarrow> int \<Rightarrow> int \<Rightarrow> nat \<Rightarrow> 'f" where
  "edge_slot_value E config x y j =
     (let e = to_gfloat E (edge_coef_rhs E (edge_locals E config x y j))
      in if isnan E e then to_gfloat E (of_gint E 0) else e)"

text \<open>
  What edge \<open>j\<close> does to the value \<open>v\<close> of the vertex slot \<open>i\<close>: nothing when the pixel
  is on the line of the edge; otherwise its term is added when \<open>j = i\<close> and its other
  term is subtracted when \<open>i\<close> is the next vertex. \<open>vertex_accumulate\<close> runs the edges
  from \<open>j\<close> on, starting with \<open>v\<close>.
\<close>

definition vertex_update ::
  "'f env \<Rightarrow> 'f GimpCageConfig \<Rightarrow> int \<Rightarrow> int \<Rightarrow> nat \<Rightarrow> nat \<Rightarrow> 'f \<Rightarrow> 'f" where
  "vertex_update E config x y i j v =
     (let l = edge_locals E config x y j
      in if gimp_operation_cage_coef_calc_is_on_straight E (l_v1 l) (l_v2 l) (l_p l) then v
         else
           let v1 = (if j = i then to_gfloat E (plus_d E v (vertex_term_j E l)) else v)
           in if (j + 1) mod cage_vertice_number config = i
              then to_gfloat E (minus_d E v1 (vertex_term_next E l))
              else v1)"

function vertex_accumulate ::
  "'f env \<Rightarrow> 'f GimpCageConfig \<Rightarrow> int \<Rightarrow> int \<Rightarrow> nat \<Rightarrow> nat \<Rightarrow> 'f \<Rightarrow> 'f" where
  "vertex_accumulate E config x y i j v =
     (if j < cage_vertice_number config
      then vertex_accumulate E config x y i (j + 1) (vertex_update E config x y i j v)
      else v)"
  by pat_completeness auto
termination
  by (relation "measure (\<lambda>(E, config, x, y, i, j, v). cage_vertice_number config - j)") auto

declare vertex_accumulate.simps [simp del]

subsection \<open>An environment for concrete runs\<close>

text \<open>
  To run the model on a concrete cage, the parameters need values. \<open>ieee\<close> has the
  special values of IEEE arithmetic (NaN, the two infinities; \<open>Inf True\<close> is the
  negative one) with their rules, and the real numbers as finite values: no rounding,
  no overflow and one zero, which divides like \<open>+0\<close>. The theorems about the kernel
  are stated for every environment; this one supplies the examples.
\<close>

datatype ieee = NaN | Inf bool | Fin real

fun ieee_uminus :: "ieee \<Rightarrow> ieee" where
  "ieee_uminus NaN = NaN"
| "ieee_uminus (Inf s) = Inf (\<not> s)"
| "ieee_uminus (Fin a) = Fin (- a)"

fun ieee_plus :: "ieee \<Rightarrow> ieee \<Rightarrow> ieee" where
  "ieee_plus (Fin a) (Fin b) = Fin (a + b)"
| "ieee_plus (Fin a) (Inf t) = Inf t"
| "ieee_plus (Inf s) (Fin b) = Inf s"
| "ieee_plus (Inf s) (Inf t) = (if s = t then Inf s else NaN)"
| "ieee_plus NaN b = NaN"
| "ieee_plus a NaN = NaN"

definition ieee_minus :: "ieee \<Rightarrow> ieee \<Rightarrow> ieee" where
  "ieee_minus a b = ieee_plus a (ieee_uminus b)"

fun ieee_times :: "ieee \<Rightarrow> ieee \<Rightarrow> ieee" where
  "ieee_times (Fin a) (Fin b) = Fin (a * b)"
| "ieee_times (Fin a) (Inf t) = (if a = 0 then NaN else Inf (t \<noteq> (a < 0)))"
| "ieee_times (Inf s) (Fin b) = (if b = 0 then NaN else Inf (s \<noteq> (b < 0)))"
| "ieee_times (Inf s) (Inf t) = Inf (s \<noteq> t)"
| "ieee_times NaN b = NaN"
| "ieee_times a NaN = NaN"

fun ieee_divide :: "ieee \<Rightarrow> ieee \<Rightarrow> ieee" where
  "ieee_divide (Fin a) (Fin b) =
     (if b = 0 then (if a = 0 then NaN else Inf (a < 0)) else Fin (a / b))"
| "ieee_divide (Fin a) (Inf t) = Fin 0"
| "ieee_divide (Inf s) (Fin b) = Inf (s \<noteq> (b < 0))"
| "ieee_divide (Inf s) (Inf t) = NaN"
| "ieee_divide NaN b = NaN"
| "ieee_divide a NaN = NaN"

fun ieee_sqrt :: "ieee \<Rightarrow> ieee" where
  "ieee_sqrt (Fin a) = (if a < 0 then NaN else Fin (sqrt a))"
| "ieee_sqrt (Inf s) = (if s then NaN else Inf False)"
| "ieee_sqrt NaN = NaN"

fun ieee_log :: "ieee \<Rightarrow> ieee" where
  "ieee_log (Fin a) = (if a < 0 then NaN else if a = 0 then Inf True else Fin (ln a))"
| "ieee_log (Inf s) = (if s then NaN else Inf False)"
| "ieee_log NaN = NaN"

fun ieee_atan2 :: "ieee \<Rightarrow> ieee \<Rightarrow> ieee" where
  "ieee_atan2 (Fin b) (Fin a) =
     (if 0 < a then Fin (arctan (b / a))
      else if a < 0 then (if b < 0 then Fin (arctan (b / a) - pi) else Fin (arctan (b / a) + pi))
      else if 0 < b then Fin (pi / 2)
      else if b < 0 then Fin (- pi / 2)
      else Fin 0)"
| "ieee_atan2 (Fin b) (Inf t) = (if t then (if b < 0 then Fin (- pi) else Fin pi) else Fin 0)"
| "ieee_atan2 (Inf s) (Fin a) = (if s then Fin (- pi / 2) else Fin (pi / 2))"
| "ieee_atan2 (Inf s) (Inf t) =
     (if t then (if s then Fin (- 3 * pi / 4) else Fin (3 * pi / 4))
      else (if s then Fin (- pi / 4) else Fin (pi / 4)))"
| "ieee_atan2 NaN a = NaN"
| "ieee_atan2 b NaN = NaN"

fun ieee_less :: "ieee \<Rightarrow> ieee \<Rightarrow> bool" where
  "ieee_less (Fin a) (Fin b) = (a < b)"
| "ieee_less (Fin a) (Inf t) = (\<not> t)"
| "ieee_less (Inf s) (Fin b) = s"
| "ieee_less (Inf s) (Inf t) = (s \<and> \<not> t)"
| "ieee_less NaN b = False"
| "ieee_less a NaN = False"

fun ieee_isnan :: "ieee \<Rightarrow> bool" where
  "ieee_isnan NaN = True"
| "ieee_isnan (Inf s) = False"
| "ieee_isnan (Fin a) = False"

text \<open>
  Modelled from the spec: \<open>gimp_vector2_normalize\<close> (libgimpmath) scales a vector to
  unit length and leaves the zero vector as it is.
\<close>

definition ieee_normalize :: "ieee GimpVector2 \<Rightarrow> ieee GimpVector2" where
  "ieee_normalize v =
     (let len = ieee_sqrt (ieee_plus (ieee_times (vec_x v) (vec_x v))
                                     (ieee_times (vec_y v) (vec_y v)))
      in if len \<noteq> Fin 0
         then \<lparr>vec_x = ieee_times (vec_x v) (ieee_divide (Fin 1) len),
               vec_y = ieee_times (vec_y v) (ieee_divide (Fin 1) len)\<rparr>
         else \<lparr>vec_x = Fin 0, vec_y = Fin 0\<rparr>)"

text \<open>
  Modelled from the spec: \<open>point_inside\<close> is an even--odd test. A ray from the pixel in
  the direction of growing \<open>x\<close> is intersected with every edge; an edge counts when the
  pixel's \<open>y\<close> is at or above its lower end and below its upper end.
\<close>

fun ieee_real :: "ieee \<Rightarrow> real" where
  "ieee_real (Fin a) = a"
| "ieee_real (Inf s) = 0"
| "ieee_real NaN = 0"

definition edge_crossed :: "real \<Rightarrow> real \<Rightarrow> ieee GimpVector2 \<Rightarrow> ieee GimpVector2 \<Rightarrow> bool" where
  "edge_crossed px py vi vj =
     (let xi = ieee_real (vec_x vi); yi = ieee_real (vec_y vi);
          xj = ieee_real (vec_x vj); yj = ieee_real (vec_y vj)
      in ((yi \<le> py \<and> py < yj) \<or> (yj \<le> py \<and> py < yi)) \<and>
         px < (xj - xi) * (py - yi) / (yj - yi) + xi)"

fun crossings :: "real \<Rightarrow> real \<Rightarrow> ieee GimpVector2 \<Rightarrow> ieee GimpVector2 list \<Rightarrow> bool" where
  "crossings px py vj [] = False"
| "crossings px py vj (vi # vs) = (edge_crossed px py vi vj \<noteq> crossings px py vi vs)"

definition even_odd_inside :: "ieee GimpCageConfig \<Rightarrow> int \<Rightarrow> int \<Rightarrow> bool" where
  "even_odd_inside config x y =
     (case cage_vertices config of
        [] \<Rightarrow> False
      | v # vs \<Rightarrow> crossings (real_of_int x) (real_of_int y) (last (v # vs)) (v # vs))"

definition exact_env :: "ieee env" where
  "exact_env =
     \<lparr>plus_d = ieee_plus, minus_d = ieee_minus, times_d = ieee_times, divide_d = ieee_divide,
      uminus_d = ieee_uminus, sqrt_d = ieee_sqrt, log_d = ieee_log, atan2_d = ieee_atan2,
      less_d = ieee_less, isnan = ieee_isnan, of_gint = (\<lambda>i. Fin (real_of_int i)),
      lit_1e_9 = Fin (1 / 1000000000), M_PI = Fin pi, to_gfloat = (\<lambda>v. v),
      gimp_vector2_normalize = ieee_normalize,
      gimp_cage_config_point_inside = even_odd_inside\<rparr>"

text \<open>The triangle \<open>(0,0)\<close>, \<open>(10,0)\<close>, \<open>(0,10)\<close>, a buffer given by its first floats
  (zero after them) and iterator steps over it.\<close>

definition triangle :: "ieee GimpCageConfig" where
  "triangle =
     \<lparr>cage_vertice_number = 3,
      cage_vertices = [\<lparr>vec_x = Fin 0, vec_y = Fin 0\<rparr>, \<lparr>vec_x = Fin 10, vec_y = Fin 0\<rparr>,
                       \<lparr>vec_x = Fin 0, vec_y = Fin 10\<rparr>]\<rparr>"

definition store_of :: "real list \<Rightarrow> ieee store" where
  "store_of vs = (\<lambda>a. if a < length vs then Fin (vs ! a) else Fin 0)"

definition one_pixel :: "int \<Rightarrow> int \<Rightarrow> iterator_step" where
  "one_pixel x y =
     \<lparr>it_roi = \<lparr>rect_x = x, rect_y = y, rect_width = 1, rect_height = 1\<rparr>,
      it_length = 1, it_data = 0\<rparr>"

definition row_step :: iterator_step where
  "row_step =
     \<lparr>it_roi = \<lparr>rect_x = - 1, rect_y = 2, rect_width = 3, rect_height = 1\<rparr>,
      it_length = 3, it_data = 0\<rparr>"

text \<open>
  The same environment with the range of \<open>gfloat\<close>: a finite value of magnitude
  \<open>2^128\<close> or more becomes an infinity when it is stored in a \<open>gfloat\<close>, as the IEEE
  conversion from double to single precision does. A triangle with legs of \<open>10^20\<close>
  reaches that range.
\<close>

fun ieee_to_gfloat :: "ieee \<Rightarrow> ieee" where
  "ieee_to_gfloat (Fin a) =
     (if 340282366920938463463374607431768211456 \<le> a then Inf False
      else if a \<le> - 340282366920938463463374607431768211456 then Inf True
      else Fin a)"
| "ieee_to_gfloat (Inf s) = Inf s"
| "ieee_to_gfloat NaN = NaN"

definition range_env :: "ieee env" where
  "range_env = exact_env\<lparr>to_gfloat := ieee_to_gfloat\<rparr>"

definition huge_triangle :: "ieee GimpCageConfig" where
  "huge_triangle =
     \<lparr>cage_vertice_number = 3,
      cage_vertices = [\<lparr>vec_x = Fin 0, vec_y = Fin 0\<rparr>,
                       \<lparr>vec_x = Fin 100000000000000000000, vec_y = Fin 0\<rparr>,
                       \<lparr>vec_x = Fin 0, vec_y = Fin 100000000000000000000\<rparr>]\<rparr>"

section \<open>Example trees\<close>

text \<open>A group \<open>G\<close> (item 1) with the children \<open>A\<close> (2) and \<open>B\<close> (3), followed at the top
  level by \<open>C\<close> (4).\<close>

definition example_tree :: item_tree where
  "example_tree =
     \<lparr>tree_image = 0, active_item = None,
      name_hash = [''G'' \<mapsto> 1, ''A'' \<mapsto> 2, ''B'' \<mapsto> 3, ''C'' \<mapsto> 4],
      stack = (\<lambda>c. if c = TreeContainer then [1, 4] else if c = Children 1 then [2, 3] else []),
      has_children = (\<lambda>i. i = 1), is_item_type = (\<lambda>i. True),
      item_parent = (\<lambda>i. if i = 2 \<or> i = 3 then Some 1 else None),
      item_name = (\<lambda>i. if i = 1 then ''G'' else if i = 2 then ''A'' else if i = 3 then ''B'' else ''C''),
      item_image = (\<lambda>i. 0), item_removed = (\<lambda>i. False), undo_stack = []\<rparr>"

section \<open>Proofs: decimal strings and the suffix of a name\<close>

lemma digit_cases: "d < 10 \<Longrightarrow> d \<in> {0,1,2,3,4,5,6,7,8,9::nat}"
  by auto

lemma digit_char_props:
  assumes "d < 10"
  shows "isdigit (digit_char d)" and "(of_char (digit_char d) :: int) - 48 = int d"
    and "digit_char d \<noteq> CHR ''#''" and "\<not> isspace (digit_char d)"
    and "digit_char d \<noteq> CHR ''-''" and "digit_char d \<noteq> CHR ''+''"
  using digit_cases [OF assms]
  by (auto simp: digit_char_def isdigit_def isspace_def)

lemma print_nat_digits: "c \<in> set (print_nat n) \<Longrightarrow> isdigit c"
proof (induction n arbitrary: c rule: print_nat.induct)
  case (1 n)
  show ?case
  proof (cases "n < 10")
    case True
    with "1.prems" show ?thesis
      by (simp add: print_nat.simps [of n] digit_char_props(1))
  next
    case False
    with "1.prems" "1.IH" show ?thesis
      by (auto simp: print_nat.simps [of n] digit_char_props(1))
  qed
qed

lemma print_nat_not_Nil: "print_nat n \<noteq> []"
  by (simp add: print_nat.simps [of n])

lemma atoi_digits_append:
  "\<forall>c \<in> set xs. isdigit c \<Longrightarrow> atoi_digits acc (xs @ ys) = atoi_digits (atoi_digits acc xs) ys"
  by (induction xs arbitrary: acc) auto

lemma atoi_digits_print_nat: "atoi_digits 0 (print_nat n) = int n"
proof (induction n rule: print_nat.induct)
  case (1 n)
  show ?case
  proof (cases "n < 10")
    case True
    then show ?thesis
      by (simp add: print_nat.simps [of n] digit_char_props)
  next
    case False
    have d: "n mod 10 < 10" by simp
    have "atoi_digits 0 (print_nat n)
          = atoi_digits (atoi_digits 0 (print_nat (n div 10))) [digit_char (n mod 10)]"
      using False by (simp add: print_nat.simps [of n] atoi_digits_append print_nat_digits)
    also have "\<dots> = int (n div 10) * 10 + int (n mod 10)"
      using "1.IH" False digit_char_props(1,2) [OF d] by simp
    also have "\<dots> = int n" by presburger
    finally show ?thesis .
  qed
qed

lemma strtol10_printf_d: "strtol10 (printf_d n) = n"
proof (cases "n < 0")
  case True
  have "\<not> isspace CHR ''-''" by (simp add: isspace_def)
  then show ?thesis using True
    by (simp add: strtol10_def printf_d_def atoi_digits_print_nat)
next
  case False
  obtain c cs where cs: "print_nat (nat n) = c # cs"
    using print_nat_not_Nil [of "nat n"] by (cases "print_nat (nat n)") auto
  then have "isdigit c" using print_nat_digits [of c "nat n"] by simp
  then have "\<not> isspace c" "c \<noteq> CHR ''-''" "c \<noteq> CHR ''+''"
    by (auto simp: isdigit_def isspace_def)
  then have "strtol10 (c # cs) = atoi_digits 0 (c # cs)"
    by (simp add: strtol10_def)
  then show ?thesis using False cs atoi_digits_print_nat [of "nat n"]
    by (simp add: printf_d_def)
qed

lemma to_gint_range: "INT_MIN \<le> to_gint v \<and> to_gint v \<le> INT_MAX"
  unfolding INT_MIN_def INT_MAX_def to_gint_def
  using pos_mod_bound [of 4294967296 "v + 2147483648"] pos_mod_sign [of 4294967296 "v + 2147483648"]
  by linarith

lemma to_gint_id: "INT_MIN \<le> v \<Longrightarrow> v \<le> INT_MAX \<Longrightarrow> to_gint v = v"
  by (simp add: to_gint_def INT_MIN_def INT_MAX_def)

lemma atoi_printf_d: "INT_MIN \<le> n \<Longrightarrow> n \<le> INT_MAX \<Longrightarrow> atoi (printf_d n) = n"
  by (simp add: atoi_def strtol10_printf_d to_gint_id INT_MIN_def INT_MAX_def)

lemma atoi_range: "INT_MIN \<le> atoi s \<and> atoi s \<le> INT_MAX"
  by (simp add: atoi_def to_gint_range)

lemma hash_notin_printf_d: "CHR ''#'' \<notin> set (printf_d n)"
proof -
  have "\<not> isdigit CHR ''#''" by (simp add: isdigit_def)
  then have "CHR ''#'' \<notin> set (print_nat m)" for m
    using print_nat_digits by blast
  then show ?thesis by (simp add: printf_d_def)
qed

lemma strrchr_None_iff: "strrchr s c = None \<longleftrightarrow> c \<notin> set s"
  by (induction s) (auto split: option.splits)

lemma strrchr_append: "c \<notin> set suf \<Longrightarrow> strrchr (stem @ c # suf) c = Some (length stem)"
  by (induction stem) (auto simp: strrchr_None_iff split: option.splits)

lemma strrchr_Some:
  "strrchr s c = Some i \<Longrightarrow> i < length s \<and> s ! i = c \<and> c \<notin> set (drop (Suc i) s)"
proof (induction s arbitrary: i)
  case Nil
  then show ?case by simp
next
  case (Cons x xs)
  then show ?case
    by (auto simp: strrchr_None_iff split: option.splits if_splits)
qed

lemma split_ext_canonical:
  "INT_MIN \<le> n \<Longrightarrow> n \<le> INT_MAX \<Longrightarrow> split_ext (stem @ CHR ''#'' # printf_d n) = (stem, n)"
  by (simp add: split_ext_def strrchr_append hash_notin_printf_d atoi_printf_d)

lemma split_ext_not_canonical:
  assumes "CHR ''#'' \<notin> set suf" and "\<forall>n. INT_MIN \<le> n \<and> n \<le> INT_MAX \<longrightarrow> suf \<noteq> printf_d n"
  shows "split_ext (stem @ CHR ''#'' # suf) = (stem @ CHR ''#'' # suf, 0)"
  using assms atoi_range [of suf]
  by (auto simp: split_ext_def strrchr_append Let_def)

lemma split_ext_no_hash: "CHR ''#'' \<notin> set name \<Longrightarrow> split_ext name = (name, 0)"
  using strrchr_None_iff [of name "CHR ''#''"] by (simp add: split_ext_def)

lemma split_ext_number_range: "INT_MIN \<le> snd (split_ext name) \<and> snd (split_ext name) \<le> INT_MAX"
  using atoi_range by (auto simp: split_ext_def Let_def INT_MIN_def INT_MAX_def split: option.splits)

lemma uniquefy_step_canonical:
  "INT_MIN \<le> n \<Longrightarrow> n \<le> INT_MAX \<Longrightarrow>
   uniquefy_step (stem @ CHR ''#'' # printf_d n) = stem @ CHR ''#'' # printf_d (to_gint (n + 1))"
  by (simp add: uniquefy_step_def split_ext_canonical)

lemma uniquefy_step_next:
  "INT_MIN \<le> n \<Longrightarrow> n < INT_MAX \<Longrightarrow>
   uniquefy_step (stem @ CHR ''#'' # printf_d n) = stem @ CHR ''#'' # printf_d (n + 1)"
  using uniquefy_step_canonical [of n stem] to_gint_id [of "n + 1"]
  by (simp add: INT_MIN_def INT_MAX_def)

section \<open>Proofs: the collision loop\<close>

lemma uniquefy_loop_run:
  assumes "INT_MIN \<le> k" and "k \<le> m" and "m \<le> INT_MAX"
    and "h (stem @ CHR ''#'' # printf_d m) = None"
  shows "\<exists>r. k \<le> r \<and> r \<le> m \<and>
             uniquefy_loop h (stem @ CHR ''#'' # printf_d k) = Some (stem @ CHR ''#'' # printf_d r) \<and>
             h (stem @ CHR ''#'' # printf_d r) = None \<and>
             (\<forall>j. k \<le> j \<and> j < r \<longrightarrow> h (stem @ CHR ''#'' # printf_d j) \<noteq> None)"
  using assms
proof (induction "nat (m - k)" arbitrary: k)
  case 0
  then have "k = m" by simp
  with "0.prems" show ?case
    by (subst uniquefy_loop.simps) auto
next
  case (Suc d)
  show ?case
  proof (cases "h (stem @ CHR ''#'' # printf_d k) = None")
    case True
    with Suc.prems show ?thesis
      by (subst uniquefy_loop.simps) auto
  next
    case False
    have lt: "k < m" using Suc.hyps(2) by linarith
    have d: "d = nat (m - (k + 1))" using Suc.hyps(2) by linarith
    have "\<exists>r. k + 1 \<le> r \<and> r \<le> m \<and>
             uniquefy_loop h (stem @ CHR ''#'' # printf_d (k + 1)) = Some (stem @ CHR ''#'' # printf_d r) \<and>
             h (stem @ CHR ''#'' # printf_d r) = None \<and>
             (\<forall>j. k + 1 \<le> j \<and> j < r \<longrightarrow> h (stem @ CHR ''#'' # printf_d j) \<noteq> None)"
      using Suc.hyps(1) [OF d] Suc.prems lt by simp
    then obtain r where r: "k + 1 \<le> r" "r \<le> m"
      "uniquefy_loop h (stem @ CHR ''#'' # printf_d (k + 1)) = Some (stem @ CHR ''#'' # printf_d r)"
      "h (stem @ CHR ''#'' # printf_d r) = None"
      "\<forall>j. k + 1 \<le> j \<and> j < r \<longrightarrow> h (stem @ CHR ''#'' # printf_d j) \<noteq> None"
      by blast
    have step: "uniquefy_step (stem @ CHR ''#'' # printf_d k) = stem @ CHR ''#'' # printf_d (k + 1)"
      using uniquefy_step_next [of k stem] Suc.prems lt by simp
    have "uniquefy_loop h (stem @ CHR ''#'' # printf_d k) = Some (stem @ CHR ''#'' # printf_d r)"
      using False step r(3) by (subst uniquefy_loop.simps) simp
    moreover have "\<forall>j. k \<le> j \<and> j < r \<longrightarrow> h (stem @ CHR ''#'' # printf_d j) \<noteq> None"
    proof (intro allI impI)
      fix j assume j: "k \<le> j \<and> j < r"
      show "h (stem @ CHR ''#'' # printf_d j) \<noteq> None"
      proof (cases "j = k")
        case True
        then show ?thesis using False by simp
      next
        case False
        then show ?thesis using j r(5) by simp
      qed
    qed
    ultimately show ?thesis using r(1,2,4) by (intro exI [of _ r]) simp
  qed
qed

lemma printf_d_inj:
  assumes "INT_MIN \<le> a" "a \<le> INT_MAX" "INT_MIN \<le> b" "b \<le> INT_MAX" "printf_d a = printf_d b"
  shows "a = b"
proof -
  have "atoi (printf_d a) = a" using assms(1,2) by (rule atoi_printf_d)
  moreover have "atoi (printf_d b) = b" using assms(3,4) by (rule atoi_printf_d)
  ultimately show ?thesis using assms(5) by metis
qed

lemma fresh_number_exists:
  assumes fin: "finite (dom h)" and k0: "INT_MIN \<le> k0"
    and card: "card (dom h) < nat (INT_MAX - k0)"
  shows "\<exists>m. k0 < m \<and> m \<le> INT_MAX \<and> h (stem @ CHR ''#'' # printf_d m) = None"
proof (rule ccontr)
  assume "\<not> ?thesis"
  then have all: "\<forall>m. k0 < m \<and> m \<le> INT_MAX \<longrightarrow> stem @ CHR ''#'' # printf_d m \<in> dom h"
    by (auto simp: dom_def)
  let ?f = "\<lambda>m. stem @ CHR ''#'' # printf_d m"
  have inj: "inj_on ?f {k0<..INT_MAX}"
  proof (rule inj_onI)
    fix a b assume a: "a \<in> {k0<..INT_MAX}" and b: "b \<in> {k0<..INT_MAX}" and eq: "?f a = ?f b"
    from eq have "printf_d a = printf_d b" by simp
    moreover have "INT_MIN \<le> a" "a \<le> INT_MAX" "INT_MIN \<le> b" "b \<le> INT_MAX"
      using a b k0 by auto
    ultimately show "a = b" using printf_d_inj by blast
  qed
  have "?f ` {k0<..INT_MAX} \<subseteq> dom h" using all by auto
  then have "card (?f ` {k0<..INT_MAX}) \<le> card (dom h)"
    using fin card_mono by blast
  then have "nat (INT_MAX - k0) \<le> card (dom h)"
    using inj by (simp add: card_image)
  with card show False by simp
qed

text \<open>
  Claim C10, amended. For a finite name table with fewer than \<open>INT_MAX - k\<close> entries,
  \<open>k\<close> being the number the starting name ends in (0 when it has no decimal suffix),
  the collision loop terminates with a name that is not in the table. A name that does
  not collide is returned as it is; otherwise the result is \<open>stem#m\<close> for the least
  \<open>m > k\<close> whose name is free, every iteration having increased the number by one.
\<close>

theorem uniquefy_loop_terminates:
  assumes "finite (dom h)"
    and "card (dom h) < nat (INT_MAX - snd (split_ext name))"
  shows "\<exists>r. uniquefy_loop h name = Some r \<and> h r = None \<and>
           (if h name = None then r = name
            else \<exists>m. snd (split_ext name) < m \<and> m \<le> INT_MAX \<and>
                   r = fst (split_ext name) @ CHR ''#'' # printf_d m \<and>
                   (\<forall>j. snd (split_ext name) < j \<and> j < m \<longrightarrow>
                        h (fst (split_ext name) @ CHR ''#'' # printf_d j) \<noteq> None))"
proof (cases "h name = None")
  case True
  then show ?thesis by (subst uniquefy_loop.simps) simp
next
  case False
  define stem where "stem = fst (split_ext name)"
  define k0 where "k0 = snd (split_ext name)"
  have k0: "INT_MIN \<le> k0" "k0 \<le> INT_MAX"
    using split_ext_number_range [of name] by (simp_all add: k0_def)
  have lt: "k0 < INT_MAX" using assms(2) by (simp add: k0_def)
  obtain m where m: "k0 < m" "m \<le> INT_MAX" "h (stem @ CHR ''#'' # printf_d m) = None"
    using fresh_number_exists [OF assms(1) k0(1), of stem] assms(2) by (auto simp: k0_def)
  have step: "uniquefy_step name = stem @ CHR ''#'' # printf_d (k0 + 1)"
    using to_gint_id [of "k0 + 1"] k0 lt
    by (simp add: uniquefy_step_def stem_def k0_def split_beta INT_MIN_def)
  obtain r where r: "k0 + 1 \<le> r" "r \<le> m"
    "uniquefy_loop h (stem @ CHR ''#'' # printf_d (k0 + 1)) = Some (stem @ CHR ''#'' # printf_d r)"
    "h (stem @ CHR ''#'' # printf_d r) = None"
    "\<forall>j. k0 + 1 \<le> j \<and> j < r \<longrightarrow> h (stem @ CHR ''#'' # printf_d j) \<noteq> None"
    using uniquefy_loop_run [of "k0 + 1" m h stem] k0 m by (auto simp: INT_MIN_def)
  have "uniquefy_loop h name = Some (stem @ CHR ''#'' # printf_d r)"
    using False step r(3) by (subst uniquefy_loop.simps) simp
  moreover have "k0 < r" "r \<le> INT_MAX" using r(1,2) m(2) by auto
  moreover have "\<forall>j. k0 < j \<and> j < r \<longrightarrow> h (stem @ CHR ''#'' # printf_d j) \<noteq> None"
    using r(5) by auto
  ultimately show ?thesis using False r(4)
    unfolding stem_def [symmetric] k0_def [symmetric] by auto
qed

section \<open>Proofs: removal and reordering\<close>

lemma child_index_bounds: "obj \<in> set xs \<Longrightarrow> 0 \<le> child_index xs obj \<and> child_index xs obj < int (length xs)"
  by (induction xs) (auto simp: Let_def)

lemma child_index_ge: "- 1 \<le> child_index xs obj"
  by (induction xs) (auto simp: Let_def)

lemma attached_flat:
  assumes "\<And>p. \<not> has_children s p"
  shows "gimp_item_is_attached s i \<longleftrightarrow> i \<in> set (stack s TreeContainer)"
proof
  assume "gimp_item_is_attached s i"
  then show "i \<in> set (stack s TreeContainer)"
    by (induction rule: gimp_item_is_attached.induct) (auto simp: assms)
next
  assume "i \<in> set (stack s TreeContainer)"
  then show "gimp_item_is_attached s i" by (rule gimp_item_is_attached.toplevel)
qed

text \<open>
  Claim C8. For an attached item of the tree's image that is a child of its container,
  \<open>gimp_item_tree_remove_item\<close> takes the item out of that container and returns
  the suggested new active item when one is given. Without a suggestion it returns the
  child of the vacated container at index \<open>min (old index, n_children - 1)\<close> when
  children remain, else the item's former parent, which is \<open>None\<close> for a top-level item.
\<close>

theorem remove_item_new_active:
  assumes "gimp_item_is_attached s i"
    and "gimp_item_get_image s i = tree_image s"
    and "i \<in> set (stack s (gimp_item_get_container s i))"
  shows "let c = gimp_item_get_container s i;
             (chosen, s') = gimp_item_tree_remove_item s i new_active;
             rest = stack s' c
         in rest = remove1 i (stack s c) \<and>
            chosen =
              (case new_active of
                 Some a \<Rightarrow> Some a
               | None \<Rightarrow>
                   if rest \<noteq> []
                   then Some (rest ! nat (min (gimp_item_get_index s i) (int (length rest) - 1)))
                   else item_parent s i)"
proof -
  define c where "c = gimp_item_get_container s i"
  define idx where "idx = gimp_item_get_index s i"
  define rest where "rest = remove1 i (stack s c)"
  have idx: "0 \<le> idx" "idx < int (length (stack s c))"
    using child_index_bounds [OF assms(3)]
    by (simp_all add: idx_def c_def gimp_item_get_index_def gimp_container_get_child_index_def)
  have clamp: "rest \<noteq> [] \<Longrightarrow> CLAMP idx 0 (int (length rest) - 1) = min idx (int (length rest) - 1)"
    using idx by (auto simp: CLAMP_def)
  have in_range: "rest \<noteq> [] \<Longrightarrow> 0 \<le> min idx (int (length rest) - 1) \<and> min idx (int (length rest) - 1) < int (length rest)"
    using idx by (cases rest) auto
  show ?thesis
    using assms(1,2) clamp in_range
    unfolding Let_def c_def [symmetric] idx_def [symmetric]
    by (cases new_active)
       (auto simp: gimp_item_tree_remove_item_def Let_def c_def [symmetric] idx_def [symmetric]
          rest_def [symmetric] gimp_container_remove_def gimp_viewable_set_parent_def
          gimp_item_removed_def gimp_container_get_n_children_def
          gimp_container_get_child_by_index_def gimp_item_get_parent_def)
qed

text \<open>
  Claim C9. For an attached item and a valid new parent, \<open>gimp_item_tree_reorder_item\<close>
  returns \<open>TRUE\<close>. The requested index is clamped to \<open>[0, n - 1]\<close> when the destination
  is the item's own container and to \<open>[0, n]\<close> otherwise, \<open>n\<close> being the number of
  children of the destination. Nothing changes when neither the container nor the index
  does; otherwise the item moves to the clamped index (across containers with its parent
  set to the new parent, or in place), and one undo record is pushed exactly when
  something changes and \<open>push_undo\<close> is set.
\<close>

theorem reorder_item_effect:
  assumes "is_item_type s i" and "gimp_item_is_attached s i"
    and "gimp_item_get_image s i = tree_image s"
    and "i \<in> set (stack s (gimp_item_get_container s i))"
    and "\<forall>p. new_parent = Some p \<longrightarrow>
           is_item_type s p \<and> gimp_item_is_attached s p \<and>
           gimp_item_get_image s p = tree_image s \<and> has_children s p"
  shows "let c = gimp_item_get_container s i;
             nc = (case new_parent of None \<Rightarrow> TreeContainer | Some p \<Rightarrow> Children p);
             n = int (length (stack s nc));
             idx = max 0 (min new_index (if nc = c then n - 1 else n));
             changed = (nc \<noteq> c \<or> idx \<noteq> gimp_item_get_index s i);
             (ok, s') = gimp_item_tree_reorder_item s i new_parent new_index push_undo undo_desc
         in ok \<and>
            undo_stack s' =
              (if changed \<and> push_undo then undo_stack s @ [ItemReorder undo_desc i]
               else undo_stack s) \<and>
            (\<not> changed \<longrightarrow> s' = s) \<and>
            (changed \<and> nc \<noteq> c \<longrightarrow>
               stack s' c = remove1 i (stack s c) \<and>
               stack s' nc = list_insert (stack s nc) i idx \<and>
               item_parent s' i = new_parent) \<and>
            (changed \<and> nc = c \<longrightarrow>
               stack s' c = list_insert (remove1 i (stack s c)) i idx \<and>
               item_parent s' = item_parent s)"
proof -
  define c where "c = gimp_item_get_container s i"
  define nc where "nc = (case new_parent of None \<Rightarrow> TreeContainer | Some p \<Rightarrow> Children p)"
  define m where "m = (if nc = c then int (length (stack s nc)) - 1 else int (length (stack s nc)))"
  have pos: "0 < length (stack s c)"
    using assms(4) unfolding c_def by (rule length_pos_if_in_set)
  then have m: "0 \<le> m" by (auto simp: m_def)
  have clamp: "CLAMP new_index 0 m = max 0 (min new_index m)"
    using m by (auto simp: CLAMP_def)
  have nc: "(case new_parent of Some p \<Rightarrow> the (gimp_viewable_get_children s p) | None \<Rightarrow> TreeContainer) = nc"
    using assms(5) by (auto simp: nc_def gimp_viewable_get_children_def split: option.splits)
  have pre: "(case new_parent of None \<Rightarrow> True | Some p \<Rightarrow> is_item_type s p)"
    "(case new_parent of None \<Rightarrow> True | Some p \<Rightarrow> gimp_item_is_attached s p)"
    "(case new_parent of None \<Rightarrow> True | Some p \<Rightarrow> gimp_item_get_image s p = tree_image s)"
    "(case new_parent of None \<Rightarrow> True | Some p \<Rightarrow> gimp_viewable_get_children s p \<noteq> None)"
    using assms(5) by (auto simp: gimp_viewable_get_children_def split: option.splits)
  show ?thesis
    using assms(1-3) pre clamp
    unfolding gimp_item_tree_reorder_item_def Let_def nc c_def [symmetric] m_def
      nc_def [symmetric] gimp_container_get_n_children_def
    by (auto simp: gimp_image_undo_push_item_reorder_def gimp_container_insert_def
          gimp_container_remove_def gimp_viewable_set_parent_def gimp_container_reorder_def)
qed

lemmas name_eval =
  uniquefy_step_def split_ext_def atoi_def strtol10_def printf_d_def print_nat.simps
  isdigit_def isspace_def to_gint_def digit_char_def

lemma example_attached: "gimp_item_is_attached example_tree 4" "gimp_item_is_attached example_tree 1"
  by (rule gimp_item_is_attached.toplevel, simp add: example_tree_def)+

text \<open>
  Scenario of the specification: \<open>C\<close> is moved into the group \<open>G\<close> at index 1 with
  \<open>push_undo\<close>; the children of \<open>G\<close> become \<open>A, C, B\<close>, the parent of \<open>C\<close> is \<open>G\<close> and
  one undo record is pushed.
\<close>

theorem reorder_item_effect_witness:
  "is_item_type example_tree 4 \<and> gimp_item_is_attached example_tree 4 \<and>
   gimp_item_get_image example_tree 4 = tree_image example_tree \<and>
   4 \<in> set (stack example_tree (gimp_item_get_container example_tree 4)) \<and>
   is_item_type example_tree 1 \<and> gimp_item_is_attached example_tree 1 \<and>
   gimp_item_get_image example_tree 1 = tree_image example_tree \<and> has_children example_tree 1 \<and>
   fst (gimp_item_tree_reorder_item example_tree 4 (Some 1) 1 True ''move'') \<and>
   undo_stack (snd (gimp_item_tree_reorder_item example_tree 4 (Some 1) 1 True ''move''))
     = [ItemReorder ''move'' 4] \<and>
   stack (snd (gimp_item_tree_reorder_item example_tree 4 (Some 1) 1 True ''move'')) (Children 1)
     = [2, 4, 3] \<and>
   stack (snd (gimp_item_tree_reorder_item example_tree 4 (Some 1) 1 True ''move'')) TreeContainer
     = [1] \<and>
   item_parent (snd (gimp_item_tree_reorder_item example_tree 4 (Some 1) 1 True ''move'')) 4
     = Some 1"
proof -
  have h: "is_item_type example_tree 4" "gimp_item_get_image example_tree 4 = tree_image example_tree"
    "4 \<in> set (stack example_tree (gimp_item_get_container example_tree 4))"
    "\<forall>p. Some (1::nat) = Some p \<longrightarrow>
           is_item_type example_tree p \<and> gimp_item_is_attached example_tree p \<and>
           gimp_item_get_image example_tree p = tree_image example_tree \<and> has_children example_tree p"
    using example_attached(2)
    by (simp_all add: example_tree_def gimp_item_get_image_def gimp_item_get_container_def)
  have "gimp_item_get_container example_tree 4 = TreeContainer"
    "gimp_item_get_index example_tree 4 = 1"
    by (simp_all add: example_tree_def gimp_item_get_container_def gimp_item_get_index_def
          gimp_container_get_child_index_def)
  then show ?thesis
    using reorder_item_effect [OF h(1) example_attached(1) h(2) h(3) h(4), of 1 True "''move''"]
      h example_attached
    by (simp add: Let_def split_beta list_insert_def) (simp add: example_tree_def)
qed

text \<open>
  Removing \<open>C\<close> from the example tree: without a suggestion the group \<open>G\<close>, the only
  item left at the top level, is returned; the suggestion \<open>B\<close> is returned as it is.
\<close>

theorem remove_item_new_active_witness:
  "gimp_item_is_attached example_tree 4 \<and>
   gimp_item_get_image example_tree 4 = tree_image example_tree \<and>
   4 \<in> set (stack example_tree (gimp_item_get_container example_tree 4)) \<and>
   fst (gimp_item_tree_remove_item example_tree 4 None) = Some 1 \<and>
   fst (gimp_item_tree_remove_item example_tree 4 (Some 3)) = Some 3"
proof -
  have h: "gimp_item_get_image example_tree 4 = tree_image example_tree"
    "4 \<in> set (stack example_tree (gimp_item_get_container example_tree 4))"
    by (simp_all add: example_tree_def gimp_item_get_image_def gimp_item_get_container_def)
  have c: "gimp_item_get_container example_tree 4 = TreeContainer"
    "gimp_item_get_index example_tree 4 = 1"
    "stack example_tree TreeContainer = [1, 4]"
    by (simp_all add: example_tree_def gimp_item_get_container_def gimp_item_get_index_def
          gimp_container_get_child_index_def)
  show ?thesis
    using remove_item_new_active [OF example_attached(1) h, of None]
      remove_item_new_active [OF example_attached(1) h, of "Some 3"] h example_attached(1) c
    by (simp add: Let_def split_beta)
qed

section \<open>Proofs: the name table and the suffix rule\<close>

text \<open>
  Claim C6, at the input where the code departs from it. An item named \<open>Layer\<close> is
  added to an empty tree and removed again. The name table still maps \<open>Layer\<close> to the
  removed item, which is no longer attached: \<open>gimp_item_tree_remove_item\<close> never calls
  \<open>g_hash_table_remove\<close>. A second item named \<open>Layer\<close> therefore collides with the
  stale entry and is renamed \<open>Layer#1\<close>.
\<close>

theorem remove_item_keeps_name:
  "\<exists>s1 s2 s3.
     gimp_item_tree_add_item (gimp_item_tree_new 0 (\<lambda>i. ''Layer'')) 1 None 0 = Some s1 \<and>
     gimp_item_tree_get_item_by_name s1 ''Layer'' = Some 1 \<and>
     gimp_item_tree_remove_item s1 1 None = (None, s2) \<and>
     \<not> gimp_item_is_attached s2 1 \<and>
     gimp_item_tree_get_item_by_name s2 ''Layer'' = Some 1 \<and>
     gimp_item_tree_add_item s2 2 None 0 = Some s3 \<and>
     item_name s3 2 = ''Layer#1''"
  by (simp add: gimp_item_tree_new_def gimp_item_tree_add_item_def attached_flat
        gimp_item_tree_uniquefy_name_def uniquefy_loop.simps gimp_item_get_image_def
        gimp_container_insert_def list_insert_def gimp_item_tree_get_item_by_name_def
        gimp_item_tree_remove_item_def gimp_item_get_parent_def gimp_item_get_container_def
        gimp_item_get_index_def gimp_container_get_child_index_def gimp_container_remove_def
        gimp_item_removed_def gimp_container_get_n_children_def Let_def name_eval)

text \<open>
  The claim C7 says that \<open>foo#-3\<close> is an atomic stem, so that a collision would give
  \<open>foo#-3#1\<close>. The code reads \<open>-3\<close> with \<open>atoi\<close>, prints it back as \<open>-3\<close>, finds the
  suffix unchanged and counts on from it.
\<close>

theorem uniquefy_negative_suffix_counterexample:
  "uniquefy_step ''foo#-3'' \<noteq> ''foo#-3#1'' \<and> uniquefy_step ''foo#-3'' = ''foo#-2''"
  by (simp add: name_eval)

lemma printf_d_1: "printf_d 1 = ''1''"
  by (simp add: name_eval)

text \<open>
  Claim C7, amended. In one iteration of the collision loop, a name without \<open>#\<close> gets
  \<open>#1\<close> appended. When the text after the last \<open>#\<close> is the decimal form \<open>"%d"\<close> of a
  \<open>gint\<close> \<open>n\<close>, negative numbers included, the suffix is cut off and replaced by
  \<open>n + 1\<close>. When that text is the \<open>"%d"\<close> form of no \<open>gint\<close> (as \<open>007\<close>), the whole name is the
  stem and \<open>#1\<close> is appended.
\<close>

theorem uniquefy_step_suffix:
  "(CHR ''#'' \<notin> set name \<longrightarrow> uniquefy_step name = name @ ''#1'') \<and>
   (INT_MIN \<le> n \<and> n \<le> INT_MAX \<longrightarrow>
      uniquefy_step (stem @ ''#'' @ printf_d n) = stem @ ''#'' @ printf_d (to_gint (n + 1))) \<and>
   (CHR ''#'' \<notin> set suf \<and> (\<forall>k. INT_MIN \<le> k \<and> k \<le> INT_MAX \<longrightarrow> suf \<noteq> printf_d k) \<longrightarrow>
      uniquefy_step (stem @ ''#'' @ suf) = stem @ ''#'' @ suf @ ''#1'')"
proof (intro conjI impI)
  assume "CHR ''#'' \<notin> set name"
  then show "uniquefy_step name = name @ ''#1''"
    using printf_d_1 by (simp add: uniquefy_step_def split_ext_no_hash to_gint_def)
next
  assume "INT_MIN \<le> n \<and> n \<le> INT_MAX"
  then show "uniquefy_step (stem @ ''#'' @ printf_d n) = stem @ ''#'' @ printf_d (to_gint (n + 1))"
    using uniquefy_step_canonical [of n stem] by simp
next
  assume "CHR ''#'' \<notin> set suf \<and> (\<forall>k. INT_MIN \<le> k \<and> k \<le> INT_MAX \<longrightarrow> suf \<noteq> printf_d k)"
  then have "split_ext (stem @ CHR ''#'' # suf) = (stem @ CHR ''#'' # suf, 0)"
    using split_ext_not_canonical [of suf stem] by blast
  then show "uniquefy_step (stem @ ''#'' @ suf) = stem @ ''#'' @ suf @ ''#1''"
    using printf_d_1 by (simp add: uniquefy_step_def to_gint_def)
qed

lemma not_canonical_007: "INT_MIN \<le> k \<and> k \<le> INT_MAX \<longrightarrow> ''007'' \<noteq> printf_d k"
proof (intro impI notI)
  assume k: "INT_MIN \<le> k \<and> k \<le> INT_MAX" and eq: "''007'' = printf_d k"
  have "atoi (printf_d k) = k" using k atoi_printf_d by blast
  moreover have "atoi ''007'' = 7" by (simp add: name_eval)
  ultimately have "k = 7" using eq by metis
  moreover have "printf_d 7 = ''7''" by (simp add: name_eval)
  ultimately show False using eq by simp
qed

text \<open>
  The three cases at \<open>Layer\<close>, \<open>foo#-3\<close> and \<open>x#007\<close>; \<open>007\<close> is the decimal form of no
  integer, since it reads as 7 and 7 prints as \<open>7\<close>.
\<close>

theorem uniquefy_step_suffix_witness:
  "CHR ''#'' \<notin> set ''Layer'' \<and> uniquefy_step ''Layer'' = ''Layer#1'' \<and>
   INT_MIN \<le> - 3 \<and> - 3 \<le> INT_MAX \<and> uniquefy_step ''foo#-3'' = ''foo#-2'' \<and>
   CHR ''#'' \<notin> set ''007'' \<and> atoi ''007'' = 7 \<and> printf_d 7 \<noteq> ''007'' \<and>
   uniquefy_step ''x#007'' = ''x#007#1''"
proof -
  have r: "INT_MIN \<le> - 3 \<and> - 3 \<le> INT_MAX" by (simp add: INT_MIN_def INT_MAX_def)
  have p: "printf_d (- 3) = ''-3''" "printf_d (to_gint (- 3 + 1)) = ''-2''"
    by (simp_all add: name_eval)
  have q: "atoi ''007'' = 7" "printf_d 7 \<noteq> ''007''"
    by (simp_all add: name_eval)
  show ?thesis
    using uniquefy_step_suffix [where name = "''Layer''" and n = "- 3" and stem = "''foo''"
          and suf = "''007''"]
      uniquefy_step_suffix [where name = "''Layer''" and n = "- 3" and stem = "''x''"
          and suf = "''007''"]
      not_canonical_007 r p q
    by simp
qed

text \<open>
  The claim C10 says that every iteration after the first strictly increases the number
  \<open>k\<close> of the name \<open>stem#k\<close>. With \<open>x#2147483646\<close> and \<open>x#2147483647\<close> in the table and
  the starting name \<open>x#2147483646\<close>, the first iteration gives \<open>x#2147483647\<close>, which
  collides, and the second increments \<open>INT_MAX\<close>: the number wraps to \<open>-2147483648\<close>.
\<close>

theorem uniquefy_counter_wraps_counterexample:
  "[''x#2147483646'' \<mapsto> (0::nat), ''x#2147483647'' \<mapsto> 1] (uniquefy_step ''x#2147483646'') \<noteq> None \<and>
   uniquefy_step (uniquefy_step ''x#2147483646'') = ''x#-2147483648'' \<and>
   snd (split_ext (uniquefy_step (uniquefy_step ''x#2147483646'')))
     < snd (split_ext (uniquefy_step ''x#2147483646''))"
  by (simp add: name_eval)

text \<open>
  Scenario of the specification: with \<open>Layer\<close> and \<open>Layer#1\<close> in the table, a third
  \<open>Layer\<close> becomes \<open>Layer#2\<close>.
\<close>

theorem uniquefy_loop_terminates_witness:
  "finite (dom [''Layer'' \<mapsto> (1::nat), ''Layer#1'' \<mapsto> 2]) \<and>
   card (dom [''Layer'' \<mapsto> (1::nat), ''Layer#1'' \<mapsto> 2]) < nat (INT_MAX - snd (split_ext ''Layer'')) \<and>
   (\<exists>r. uniquefy_loop [''Layer'' \<mapsto> (1::nat), ''Layer#1'' \<mapsto> 2] ''Layer'' = Some r \<and>
        [''Layer'' \<mapsto> (1::nat), ''Layer#1'' \<mapsto> 2] r = None) \<and>
   uniquefy_loop [''Layer'' \<mapsto> (1::nat), ''Layer#1'' \<mapsto> 2] ''Layer'' = Some ''Layer#2''"
proof -
  have h: "finite (dom [''Layer'' \<mapsto> (1::nat), ''Layer#1'' \<mapsto> 2])"
    "card (dom [''Layer'' \<mapsto> (1::nat), ''Layer#1'' \<mapsto> 2]) < nat (INT_MAX - snd (split_ext ''Layer''))"
    by (simp_all add: split_ext_def INT_MAX_def)
  have e: "uniquefy_loop [''Layer'' \<mapsto> (1::nat), ''Layer#1'' \<mapsto> 2] ''Layer'' = Some ''Layer#2''"
    by (simp add: uniquefy_loop.simps name_eval)
  show ?thesis
    using uniquefy_loop_terminates [OF h] h e by auto
qed

section \<open>Proofs: the loop over the edges\<close>

lemma edge_body_frame:
  assumes "j < cage_vertice_number config"
    and "a < coef \<or> coef + 2 * cage_vertice_number config \<le> a"
  shows "edge_body E config x y coef j mem a = mem a"
proof -
  define k where "k = Suc j mod cage_vertice_number config"
  have "k < cage_vertice_number config"
    using assms(1) by (simp add: k_def)
  then show ?thesis
    using assms by (auto simp: edge_body_def Let_def k_def [symmetric])
qed

lemma edges_loop_frame:
  "a < coef \<or> coef + 2 * cage_vertice_number config \<le> a \<Longrightarrow>
   edges_loop E config x y coef j mem a = mem a"
proof (induction E config x y coef j mem rule: edges_loop.induct)
  case (1 E config x y coef j mem)
  show ?case
  proof (cases "j < cage_vertice_number config")
    case True
    then show ?thesis
      using "1.IH" "1.prems" edge_body_frame [of j config a coef E x y mem]
      by (subst edges_loop.simps) simp
  next
    case False
    then show ?thesis by (subst edges_loop.simps) simp
  qed
qed

lemma edge_body_vertex_slot:
  assumes "j < cage_vertice_number config" and "i < cage_vertice_number config"
  shows "edge_body E config x y coef j mem (coef + i) = vertex_update E config x y i j (mem (coef + i))"
  using assms by (auto simp: edge_body_def vertex_update_def Let_def)

lemma edge_body_edge_slot:
  assumes "j < cage_vertice_number config" and "i < cage_vertice_number config"
  shows "edge_body E config x y coef j mem (coef + (i + cage_vertice_number config)) =
           (if i = j then edge_slot_value E config x y j
            else mem (coef + (i + cage_vertice_number config)))"
proof -
  define k where "k = Suc j mod cage_vertice_number config"
  have "k < cage_vertice_number config"
    using assms(1) by (simp add: k_def)
  then show ?thesis
    using assms by (auto simp: edge_body_def edge_slot_value_def Let_def k_def [symmetric])
qed

lemma edges_loop_vertex_slot:
  "i < cage_vertice_number config \<Longrightarrow>
   edges_loop E config x y coef j mem (coef + i) =
     vertex_accumulate E config x y i j (mem (coef + i))"
proof (induction E config x y coef j mem rule: edges_loop.induct)
  case (1 E config x y coef j mem)
  show ?case
  proof (cases "j < cage_vertice_number config")
    case True
    then show ?thesis
      using "1.IH" "1.prems" edge_body_vertex_slot [of j config i E x y coef mem]
      by (subst edges_loop.simps, subst vertex_accumulate.simps) simp
  next
    case False
    then show ?thesis
      by (subst edges_loop.simps, subst vertex_accumulate.simps) simp
  qed
qed

lemma edges_loop_edge_slot:
  "i < cage_vertice_number config \<Longrightarrow>
   edges_loop E config x y coef j mem (coef + (i + cage_vertice_number config)) =
     (if j \<le> i then edge_slot_value E config x y i
      else mem (coef + (i + cage_vertice_number config)))"
proof (induction E config x y coef j mem rule: edges_loop.induct)
  case (1 E config x y coef j mem)
  show ?case
  proof (cases "j < cage_vertice_number config")
    case True
    show ?thesis
    proof (cases "i = j")
      case True
      with \<open>j < cage_vertice_number config\<close> show ?thesis
        using "1.IH" "1.prems" edge_body_edge_slot [of j config i E x y coef mem]
        by (subst edges_loop.simps) simp
    next
      case False
      with \<open>j < cage_vertice_number config\<close> show ?thesis
        using "1.IH" "1.prems" edge_body_edge_slot [of j config i E x y coef mem]
        by (subst edges_loop.simps) auto
    qed
  next
    case False
    then show ?thesis using "1.prems" by (subst edges_loop.simps) simp
  qed
qed

text \<open>The slots of a pixel after the loop over the edges depend on the memory through
  the vertex slots of that pixel only.\<close>

lemma edges_loop_slot:
  assumes "coef \<le> a" and "a < coef + 2 * cage_vertice_number config"
  shows "edges_loop E config x y coef 0 mem a =
           (if a < coef + cage_vertice_number config
            then vertex_accumulate E config x y (a - coef) 0 (mem a)
            else edge_slot_value E config x y (a - coef - cage_vertice_number config))"
proof (cases "a < coef + cage_vertice_number config")
  case True
  then have "a - coef < cage_vertice_number config" and "a = coef + (a - coef)"
    using assms by auto
  then show ?thesis
    using edges_loop_vertex_slot [of "a - coef" config E x y coef 0 mem] True by simp
next
  case False
  define i where "i = a - coef - cage_vertice_number config"
  have "i < cage_vertice_number config" and a: "a = coef + (i + cage_vertice_number config)"
    using assms False by (auto simp: i_def)
  then show ?thesis
    using edges_loop_edge_slot [of i config E x y coef 0 mem] False
    unfolding i_def [symmetric] by simp
qed

lemma edges_loop_cong:
  assumes "coef \<le> a" and "a < coef + 2 * cage_vertice_number config" and "mem1 a = mem2 a"
  shows "edges_loop E config x y coef 0 mem1 a = edges_loop E config x y coef 0 mem2 a"
  using assms by (simp add: edges_loop_slot)

section \<open>Proofs: pixels and iterator steps\<close>

lemma pixels_loop_frame:
  "a < coef \<or> coef + 2 * cage_vertice_number config * n \<le> a \<Longrightarrow>
   pixels_loop E config roi n x y coef mem a = mem a"
proof (induction n arbitrary: x y coef mem)
  case 0
  then show ?case by simp
next
  case (Suc n)
  let ?N = "cage_vertice_number config"
  let ?mem1 = "if gimp_cage_config_point_inside E config x y
               then edges_loop E config x y coef 0 mem else mem"
  have a1: "a < coef \<or> coef + 2 * ?N \<le> a"
    using Suc.prems by auto
  have a2: "a < coef + 2 * ?N \<or> coef + 2 * ?N + 2 * ?N * n \<le> a"
    using Suc.prems by auto
  have m1: "?mem1 a = mem a"
    using a1 by (simp add: edges_loop_frame)
  have "pixels_loop E config roi n x' y' (coef + 2 * ?N) ?mem1 a = ?mem1 a" for x' y'
    using Suc.IH [OF a2] .
  then show ?case using m1 by (simp add: Let_def)
qed

lemma next_pixel:
  assumes "0 < w"
  shows "(if w \<le> int i mod w + 1 then (0, int i div w + 1) else (int i mod w + 1, int i div w))
         = (int (Suc i) mod w, int (Suc i) div w)"
proof -
  define m q where "m = int i mod w" and "q = int i div w"
  have i: "int i = w * q + m" and m: "0 \<le> m" "m < w"
    using assms by (simp_all add: m_def q_def)
  show ?thesis
  proof (cases "w \<le> m + 1")
    case True
    then have "int (Suc i) = w * (q + 1) + 0" using i m by (simp add: algebra_simps)
    then have "int (Suc i) div w = q + 1" "int (Suc i) mod w = 0"
      using assms int_div_pos_eq [of "int (Suc i)" w "q + 1" 0]
        int_mod_pos_eq [of "int (Suc i)" w "q + 1" 0] by simp_all
    with True show ?thesis unfolding m_def [symmetric] q_def [symmetric] by simp
  next
    case False
    then have "int (Suc i) = w * q + (m + 1)" "0 \<le> m + 1" "m + 1 < w"
      using i m by simp_all
    then have "int (Suc i) div w = q" "int (Suc i) mod w = m + 1"
      using int_div_pos_eq [of "int (Suc i)" w q "m + 1"]
        int_mod_pos_eq [of "int (Suc i)" w q "m + 1"] by simp_all
    with False show ?thesis unfolding m_def [symmetric] q_def [symmetric] by simp
  qed
qed

lemma pixels_loop_Suc:
  assumes "0 < rect_width (it_roi it)"
  shows "pixels_loop E config (it_roi it) (Suc n) (pixel_x it i) (pixel_y it i)
           (pixel_coef config it i) mem
         = pixels_loop E config (it_roi it) n (pixel_x it (Suc i)) (pixel_y it (Suc i))
             (pixel_coef config it (Suc i))
             (if gimp_cage_config_point_inside E config (pixel_x it i) (pixel_y it i)
              then edges_loop E config (pixel_x it i) (pixel_y it i) (pixel_coef config it i) 0 mem
              else mem)"
proof -
  let ?w = "rect_width (it_roi it)"
  have c: "pixel_coef config it i + 2 * cage_vertice_number config = pixel_coef config it (Suc i)"
    by (simp add: pixel_coef_def)
  have n: "(if ?w \<le> int i mod ?w + 1 then (0, int i div ?w + 1)
            else (int i mod ?w + 1, int i div ?w))
           = (int (Suc i) mod ?w, int (Suc i) div ?w)"
    using next_pixel [OF assms] .
  show ?thesis
  proof (cases "?w \<le> int i mod ?w + 1")
    case True
    with n have "int (Suc i) mod ?w = 0" "int (Suc i) div ?w = int i div ?w + 1" by simp_all
    with True show ?thesis
      unfolding pixels_loop.simps Let_def c pixel_x_def pixel_y_def by (simp add: add.assoc)
  next
    case False
    with n have "int (Suc i) mod ?w = int i mod ?w + 1" "int (Suc i) div ?w = int i div ?w"
      by simp_all
    with False show ?thesis
      unfolding pixels_loop.simps Let_def c pixel_x_def pixel_y_def by (simp add: add.assoc)
  qed
qed

lemma pixels_loop_slot:
  assumes w: "0 < rect_width (it_roi it)"
  shows "i \<le> k \<Longrightarrow> k < i + n \<Longrightarrow> a \<in> pixel_slots config it k \<Longrightarrow>
         pixels_loop E config (it_roi it) n (pixel_x it i) (pixel_y it i) (pixel_coef config it i) mem a
         = (if gimp_cage_config_point_inside E config (pixel_x it k) (pixel_y it k)
            then edges_loop E config (pixel_x it k) (pixel_y it k) (pixel_coef config it k) 0 mem a
            else mem a)"
proof (induction n arbitrary: i mem)
  case 0
  then show ?case by simp
next
  case (Suc n)
  let ?N = "cage_vertice_number config"
  let ?mem1 = "if gimp_cage_config_point_inside E config (pixel_x it i) (pixel_y it i)
               then edges_loop E config (pixel_x it i) (pixel_y it i) (pixel_coef config it i) 0 mem
               else mem"
  have a: "pixel_coef config it k \<le> a" "a < pixel_coef config it k + 2 * ?N"
    using Suc.prems(3) by (simp_all add: pixel_slots_def)
  have unf: "pixels_loop E config (it_roi it) (Suc n) (pixel_x it i) (pixel_y it i)
               (pixel_coef config it i) mem a
             = pixels_loop E config (it_roi it) n (pixel_x it (Suc i)) (pixel_y it (Suc i))
                 (pixel_coef config it (Suc i)) ?mem1 a"
    by (rule fun_cong [OF pixels_loop_Suc [OF w]])
  show ?case
  proof (cases "k = i")
    case True
    have "a < pixel_coef config it (Suc i)"
      using a(2) True by (simp add: pixel_coef_def)
    then have "pixels_loop E config (it_roi it) n (pixel_x it (Suc i)) (pixel_y it (Suc i))
                 (pixel_coef config it (Suc i)) ?mem1 a = ?mem1 a"
      by (simp add: pixels_loop_frame)
    with unf True show ?thesis by simp
  next
    case False
    then have k: "Suc i \<le> k" "k < Suc i + n" using Suc.prems by simp_all
    have "pixel_coef config it i + 2 * ?N * 1 \<le> pixel_coef config it k"
      unfolding pixel_coef_def using k(1)
      by (metis Suc_eq_plus1 add.assoc add_le_cancel_left distrib_left mult_le_mono2 nat_mult_1_right)
    then have far: "pixel_coef config it i + 2 * ?N \<le> a" using a(1) by simp
    have m1: "?mem1 a = mem a"
      using far by (simp add: edges_loop_frame)
    have "pixels_loop E config (it_roi it) n (pixel_x it (Suc i)) (pixel_y it (Suc i))
            (pixel_coef config it (Suc i)) ?mem1 a
          = (if gimp_cage_config_point_inside E config (pixel_x it k) (pixel_y it k)
             then edges_loop E config (pixel_x it k) (pixel_y it k) (pixel_coef config it k) 0 ?mem1 a
             else ?mem1 a)"
      using Suc.IH [OF k Suc.prems(3)] .
    moreover have "edges_loop E config (pixel_x it k) (pixel_y it k) (pixel_coef config it k) 0 ?mem1 a
                   = edges_loop E config (pixel_x it k) (pixel_y it k) (pixel_coef config it k) 0 mem a"
      using a m1 by (rule edges_loop_cong)
    ultimately show ?thesis using unf m1 by simp
  qed
qed

lemma iterator_loop_append:
  "iterator_loop E config (xs @ ys) mem = iterator_loop E config ys (iterator_loop E config xs mem)"
  by (induction xs arbitrary: mem) simp_all

lemma iterator_loop_frame:
  "\<forall>u \<in> set its. a \<notin> step_slots config u \<Longrightarrow> iterator_loop E config its mem a = mem a"
proof (induction its arbitrary: mem)
  case Nil
  then show ?case by simp
next
  case (Cons u its)
  have "a < it_data u \<or> it_data u + 2 * cage_vertice_number config * it_length u \<le> a"
    using Cons.prems by (auto simp: step_slots_def)
  then have "pixels_loop E config (it_roi u) (it_length u) (rect_x (it_roi u)) (rect_y (it_roi u))
               (it_data u) mem a = mem a"
    by (rule pixels_loop_frame)
  then show ?case using Cons by simp
qed

lemma pixel_start:
  "pixel_x it 0 = rect_x (it_roi it)" "pixel_y it 0 = rect_y (it_roi it)"
  "pixel_coef config it 0 = it_data it"
  by (simp_all add: pixel_x_def pixel_y_def pixel_coef_def)

lemma iterator_step_slot:
  assumes "0 < rect_width (it_roi it)" and "k < it_length it" and "a \<in> pixel_slots config it k"
    and "\<forall>u \<in> set before \<union> set after. a \<notin> step_slots config u"
  shows "iterator_loop E config (before @ it # after) mem a
         = (if gimp_cage_config_point_inside E config (pixel_x it k) (pixel_y it k)
            then edges_loop E config (pixel_x it k) (pixel_y it k) (pixel_coef config it k) 0 mem a
            else mem a)"
proof -
  let ?m0 = "iterator_loop E config before mem"
  let ?m1 = "pixels_loop E config (it_roi it) (it_length it) (rect_x (it_roi it))
               (rect_y (it_roi it)) (it_data it) ?m0"
  have a: "pixel_coef config it k \<le> a" "a < pixel_coef config it k + 2 * cage_vertice_number config"
    using assms(3) by (simp_all add: pixel_slots_def)
  have m0: "?m0 a = mem a"
    using assms(4) by (simp add: iterator_loop_frame)
  have "?m1 a = (if gimp_cage_config_point_inside E config (pixel_x it k) (pixel_y it k)
                 then edges_loop E config (pixel_x it k) (pixel_y it k) (pixel_coef config it k) 0 ?m0 a
                 else ?m0 a)"
    using pixels_loop_slot [OF assms(1), of 0 k "it_length it" a config E ?m0] assms(2,3)
    by (simp add: pixel_start)
  moreover have "edges_loop E config (pixel_x it k) (pixel_y it k) (pixel_coef config it k) 0 ?m0 a
                 = edges_loop E config (pixel_x it k) (pixel_y it k) (pixel_coef config it k) 0 mem a"
    using a m0 by (rule edges_loop_cong)
  moreover have "iterator_loop E config (before @ it # after) mem a = ?m1 a"
    using assms(4) by (simp add: iterator_loop_append iterator_loop_frame)
  ultimately show ?thesis using m0 by simp
qed

section \<open>Proofs: the coefficient kernel\<close>

lemmas env_eval = exact_env_def triangle_def store_of_def one_pixel_def row_step_def
  even_odd_inside_def edge_crossed_def ieee_normalize_def ieee_minus_def

lemma sqrt_100: "sqrt 100 = 10"
  using real_sqrt_abs [of 10] by simp

lemma vertex_update_other:
  "j \<noteq> i \<Longrightarrow> (j + 1) mod cage_vertice_number config \<noteq> i \<Longrightarrow>
   vertex_update E config x y i j v = v"
  by (simp add: vertex_update_def Let_def)

lemma vertex_update_on_straight:
  "gimp_operation_cage_coef_calc_is_on_straight E (cage_vertices config ! j)
     (cage_vertices config ! ((j + 1) mod cage_vertice_number config))
     \<lparr>vec_x = of_gint E x, vec_y = of_gint E y\<rparr> \<Longrightarrow>
   vertex_update E config x y i j v = v"
  by (simp add: vertex_update_def edge_locals_def Let_def)

lemma origin_on_straight:
  "gimp_operation_cage_coef_calc_is_on_straight exact_env (cage_vertices triangle ! 0)
     (cage_vertices triangle ! ((0 + 1) mod cage_vertice_number triangle))
     \<lparr>vec_x = of_gint exact_env 0, vec_y = of_gint exact_env 0\<rparr>"
  "gimp_operation_cage_coef_calc_is_on_straight exact_env (cage_vertices triangle ! Suc (Suc 0))
     (cage_vertices triangle ! ((Suc (Suc 0) + 1) mod cage_vertice_number triangle))
     \<lparr>vec_x = of_gint exact_env 0, vec_y = of_gint exact_env 0\<rparr>"
  by (simp_all add: gimp_operation_cage_coef_calc_is_on_straight_def deter_def env_eval Let_def
        sqrt_100)

lemma origin_vertex_0: "vertex_accumulate exact_env triangle 0 0 0 0 v = v"
proof -
  have n: "cage_vertice_number triangle = Suc (Suc (Suc 0))" by (simp add: triangle_def)
  have u0: "vertex_update exact_env triangle 0 0 0 0 w = w" for w
    using origin_on_straight(1) by (rule vertex_update_on_straight)
  have u1: "vertex_update exact_env triangle 0 0 0 (Suc 0) w = w" for w
    by (rule vertex_update_other) (simp_all add: n)
  have u2: "vertex_update exact_env triangle 0 0 0 (Suc (Suc 0)) w = w" for w
    using origin_on_straight(2) by (rule vertex_update_on_straight)
  have a3: "vertex_accumulate exact_env triangle 0 0 0 (Suc (Suc (Suc 0))) w = w" for w
    by (subst vertex_accumulate.simps) (simp add: n)
  have a2: "vertex_accumulate exact_env triangle 0 0 0 (Suc (Suc 0)) w = w" for w
    by (subst vertex_accumulate.simps) (simp add: n u2 a3)
  have a1: "vertex_accumulate exact_env triangle 0 0 0 (Suc 0) w = w" for w
    by (subst vertex_accumulate.simps) (simp add: n u1 a2)
  show ?thesis
    by (subst vertex_accumulate.simps) (simp add: n u0 a1)
qed

lemma process_one_pixel:
  "gimp_cage_config_point_inside E config x y \<Longrightarrow>
   gimp_operation_cage_coef_calc_process E (Some config) [one_pixel x y] mem
     = Inr (True, edges_loop E config x y 0 0 mem)"
  by (simp add: gimp_operation_cage_coef_calc_process_def deref_def one_pixel_def Let_def)

lemma origin_inside: "gimp_cage_config_point_inside exact_env triangle 0 0"
  by (simp add: env_eval)

text \<open>
  The claim C2 says that the vertex slots are set to zero before the loop over the edges
  and that the vertex coefficients do not depend on what the buffer held before. The
  pixel \<open>(0, 0)\<close> of the triangle is on the lines of both edges that meet in vertex 0, so
  neither contributes to slot 0, and the third edge does not touch it: after
  \<open>process\<close> the slot holds what it held before, 7 in one buffer and 0 in the other.
\<close>

theorem prior_content_counterexample:
  "snd (projr (gimp_operation_cage_coef_calc_process exact_env (Some triangle) [one_pixel 0 0]
                 (store_of [7, 0, 0, 0, 0, 0]))) 0 = Fin 7 \<and>
   snd (projr (gimp_operation_cage_coef_calc_process exact_env (Some triangle) [one_pixel 0 0]
                 (store_of [0, 0, 0, 0, 0, 0]))) 0 = Fin 0"
proof -
  have "edges_loop exact_env triangle 0 0 0 0 mem 0 = mem 0" for mem
    using edges_loop_vertex_slot [of 0 triangle exact_env 0 0 0 0 mem] origin_vertex_0
    by (simp add: triangle_def)
  then show ?thesis
    by (simp add: process_one_pixel [OF origin_inside] store_of_def)
qed

text \<open>
  Claim C2, amended. For a pixel inside the cage the loop over the edges assigns each of
  the \<open>n\<close> edge slots its value, whatever the slot held before. The vertex slots are not
  set to zero: the loop starts from the value the buffer holds in the slot and applies
  the contributions of the edges to it in turn, so the vertex coefficient of a pixel
  depends on the contributions of its edges and on the prior content of that slot.
\<close>

theorem vertex_slots_start_from_buffer:
  "i < cage_vertice_number config \<Longrightarrow>
   edges_loop E config x y coef 0 mem (coef + (i + cage_vertice_number config))
     = edge_slot_value E config x y i \<and>
   edges_loop E config x y coef 0 mem (coef + i)
     = vertex_accumulate E config x y i 0 (mem (coef + i))"
  using edges_loop_edge_slot [of i config E x y coef 0 mem]
    edges_loop_vertex_slot [of i config E x y coef 0 mem]
  by simp

text \<open>
  Vertex 0 and edge 0 of the triangle at the pixel \<open>(0, 0)\<close>.
\<close>

theorem vertex_slots_start_from_buffer_witness:
  "0 < cage_vertice_number triangle \<and>
   edges_loop exact_env triangle 0 0 0 0 (store_of [7, 0, 0, 0, 0, 0])
     (0 + (0 + cage_vertice_number triangle)) = edge_slot_value exact_env triangle 0 0 0 \<and>
   edges_loop exact_env triangle 0 0 0 0 (store_of [7, 0, 0, 0, 0, 0]) (0 + 0)
     = vertex_accumulate exact_env triangle 0 0 0 0 (store_of [7, 0, 0, 0, 0, 0] (0 + 0))"
proof -
  have h: "0 < cage_vertice_number triangle" by (simp add: triangle_def)
  show ?thesis
    using vertex_slots_start_from_buffer [OF h, of exact_env 0 0 0 "store_of [7, 0, 0, 0, 0, 0]"] h
    by blast
qed

text \<open>
  The guard of line 247: whatever the formula gives, the value of the edge slot is not
  a NaN, in every arithmetic whose \<open>0.0\<close> is not a NaN.
\<close>

lemma edge_slot_never_nan:
  "\<not> isnan E (to_gfloat E (of_gint E 0)) \<Longrightarrow> \<not> isnan E (edge_slot_value E config x y j)"
  by (simp add: edge_slot_value_def Let_def)

text \<open>
  Claim C3, at the input where the code departs from it. Without a configuration
  \<open>process\<close> reads \<open>config->cage_vertice_number\<close> through the null pointer (line 194)
  before it reaches the test that would return \<open>FALSE\<close> (line 198). With a configuration
  it returns \<open>TRUE\<close> after the loop over the iterator, whatever the arithmetic gives.
\<close>

theorem process_without_config:
  "gimp_operation_cage_coef_calc_process E None it mem = Inl NullPointerDereference \<and>
   gimp_operation_cage_coef_calc_process E (Some config) it mem
     = Inr (True, iterator_loop E config it mem)"
  by (simp add: gimp_operation_cage_coef_calc_process_def deref_def)

text \<open>
  Claim C4. Let \<open>d\<close> be the determinant of the normalized directions from the first
  vertex of edge \<open>j\<close> to the pixel and to the second vertex. When \<open>d < 0.000000001\<close> and
  \<open>d > -0.000000001\<close>, the body of the loop changes the edge slot \<open>coef[j + n]\<close> and nothing
  else, so neither adjacent vertex slot receives a contribution; the edge slot gets the
  value of the formula, or \<open>0.0\<close> when that value is a NaN.
\<close>

theorem collinear_edge:
  assumes "d = deter E (cage_vertices config ! j)
                 (cage_vertices config ! ((j + 1) mod cage_vertice_number config))
                 \<lparr>vec_x = of_gint E x, vec_y = of_gint E y\<rparr>"
    and "less_d E d (lit_1e_9 E)" and "less_d E (uminus_d E (lit_1e_9 E)) d"
  shows "edge_body E config x y coef j mem
           = mem(coef + (j + cage_vertice_number config) := edge_slot_value E config x y j) \<and>
         edge_slot_value E config x y j
           = (if isnan E (to_gfloat E (edge_coef_rhs E (edge_locals E config x y j)))
              then to_gfloat E (of_gint E 0)
              else to_gfloat E (edge_coef_rhs E (edge_locals E config x y j)))"
proof -
  have "gimp_operation_cage_coef_calc_is_on_straight E (l_v1 (edge_locals E config x y j))
          (l_v2 (edge_locals E config x y j)) (l_p (edge_locals E config x y j))"
    using assms
    by (simp add: gimp_operation_cage_coef_calc_is_on_straight_def edge_locals_def Let_def)
  then show ?thesis
    by (auto simp: edge_body_def edge_slot_value_def Let_def)
qed

lemma edge_0_at_5_0: "edge_slot_value exact_env triangle 5 0 0 = Fin 0"
  by (simp add: edge_slot_value_def edge_locals_def edge_coef_rhs_def env_eval Let_def sqrt_100
        plus_f_def minus_f_def times_f_def divide_f_def)

text \<open>
  Scenario of the specification: the pixel \<open>(5, 0)\<close> is on edge 0 of the triangle; the
  formula gives a NaN, the edge slot 3 is set to 0 and the other slots keep their
  values.
\<close>

theorem collinear_edge_witness:
  "Fin 0 = deter exact_env (cage_vertices triangle ! 0)
             (cage_vertices triangle ! ((0 + 1) mod cage_vertice_number triangle))
             \<lparr>vec_x = of_gint exact_env 5, vec_y = of_gint exact_env 0\<rparr> \<and>
   less_d exact_env (Fin 0) (lit_1e_9 exact_env) \<and>
   less_d exact_env (uminus_d exact_env (lit_1e_9 exact_env)) (Fin 0) \<and>
   edge_body exact_env triangle 5 0 0 0 (store_of [1, 2, 3, 4, 5, 6])
     = (store_of [1, 2, 3, 4, 5, 6])(3 := Fin 0)"
proof -
  have h: "Fin 0 = deter exact_env (cage_vertices triangle ! 0)
             (cage_vertices triangle ! ((0 + 1) mod cage_vertice_number triangle))
             \<lparr>vec_x = of_gint exact_env 5, vec_y = of_gint exact_env 0\<rparr>"
    "less_d exact_env (Fin 0) (lit_1e_9 exact_env)"
    "less_d exact_env (uminus_d exact_env (lit_1e_9 exact_env)) (Fin 0)"
    by (simp_all add: deter_def env_eval Let_def sqrt_100)
  have "cage_vertice_number triangle = 3" by (simp add: triangle_def)
  then show ?thesis
    using collinear_edge [OF h, of 0 "store_of [1, 2, 3, 4, 5, 6]"] h edge_0_at_5_0
    by simp
qed

text \<open>
  Claim C5. Let \<open>k\<close> be a pixel of an iterator step with a positive width, \<open>a\<close> one of the
  \<open>2 n\<close> slots of that pixel, and let no other step of the iterator cover \<open>a\<close>. With a
  configuration \<open>process\<close> returns \<open>TRUE\<close>. When pixel \<open>k\<close> is outside the cage, slot \<open>a\<close>
  holds after the run what it held before. When it is inside, slot \<open>a\<close> holds what the
  loop over the edges computes for the coordinates of pixel \<open>k\<close> with the cursor at
  \<open>data + 2 n k\<close>: the cursor has advanced by \<open>2 n\<close> floats for every earlier pixel,
  inside or outside.
\<close>

theorem outside_pixel_untouched:
  assumes "0 < rect_width (it_roi it)" and "k < it_length it" and "a \<in> pixel_slots config it k"
    and "\<forall>u \<in> set before \<union> set after. a \<notin> step_slots config u"
  shows "gimp_operation_cage_coef_calc_process E (Some config) (before @ it # after) mem
           = Inr (True, iterator_loop E config (before @ it # after) mem) \<and>
         iterator_loop E config (before @ it # after) mem a
           = (if gimp_cage_config_point_inside E config (pixel_x it k) (pixel_y it k)
              then edges_loop E config (pixel_x it k) (pixel_y it k) (pixel_coef config it k) 0 mem a
              else mem a)"
  using iterator_step_slot [OF assms, of E mem]
  by (simp add: gimp_operation_cage_coef_calc_process_def deref_def)

text \<open>
  A row of three pixels across the left edge of the triangle: \<open>(-1, 2)\<close> is outside and
  its slot 3 keeps the value 4; \<open>(1, 2)\<close> is inside and its slots start at 12.
\<close>

theorem outside_pixel_untouched_witness:
  "0 < rect_width (it_roi row_step) \<and> 0 < it_length row_step \<and> 2 < it_length row_step \<and>
   3 \<in> pixel_slots triangle row_step 0 \<and> 12 \<in> pixel_slots triangle row_step 2 \<and>
   \<not> gimp_cage_config_point_inside exact_env triangle (pixel_x row_step 0) (pixel_y row_step 0) \<and>
   gimp_cage_config_point_inside exact_env triangle (pixel_x row_step 2) (pixel_y row_step 2) \<and>
   iterator_loop exact_env triangle [row_step] (store_of [1, 2, 3, 4, 5, 6]) 3 = Fin 4 \<and>
   iterator_loop exact_env triangle [row_step] (store_of [1, 2, 3, 4, 5, 6]) 12
     = edges_loop exact_env triangle 1 2 12 0 (store_of [1, 2, 3, 4, 5, 6]) 12"
proof -
  have h: "0 < rect_width (it_roi row_step)" "0 < it_length row_step" "2 < it_length row_step"
    "3 \<in> pixel_slots triangle row_step 0" "12 \<in> pixel_slots triangle row_step 2"
    "\<forall>u \<in> set [] \<union> set []. 3 \<notin> step_slots triangle u"
    "\<forall>u \<in> set [] \<union> set []. 12 \<notin> step_slots triangle u"
    by (simp_all add: row_step_def pixel_slots_def pixel_coef_def triangle_def)
  have p: "pixel_x row_step 0 = - 1" "pixel_y row_step 0 = 2"
    "pixel_x row_step 2 = 1" "pixel_y row_step 2 = 2" "pixel_coef triangle row_step 2 = 12"
    by (simp_all add: row_step_def pixel_x_def pixel_y_def pixel_coef_def triangle_def)
  have i: "\<not> gimp_cage_config_point_inside exact_env triangle (- 1) 2"
    "gimp_cage_config_point_inside exact_env triangle 1 2"
    by (simp_all add: env_eval)
  show ?thesis
    using outside_pixel_untouched [OF h(1) h(2) h(4) h(6), of exact_env "store_of [1, 2, 3, 4, 5, 6]"]
      outside_pixel_untouched [OF h(1) h(3) h(5) h(7), of exact_env "store_of [1, 2, 3, 4, 5, 6]"]
      h p i
    by (simp add: store_of_def)
qed

section \<open>Proofs: values that are not finite\<close>

lemma ieee_nan_right [simp]:
  "ieee_plus a NaN = NaN" "ieee_times a NaN = NaN" "ieee_divide a NaN = NaN"
  "ieee_atan2 a NaN = NaN" "ieee_minus a NaN = NaN" "ieee_minus NaN a = NaN"
  by (cases a; simp add: ieee_minus_def)+

lemma ieee_isnan_iff: "ieee_isnan v \<longleftrightarrow> v = NaN"
  by (cases v) simp_all

lemmas range_eval = range_env_def exact_env_def huge_triangle_def store_of_def one_pixel_def
  even_odd_inside_def edge_crossed_def ieee_normalize_def

lemma sqrt_25: "sqrt 25 = 5"
  using real_sqrt_abs [of 5] by simp

lemma sqrt_1e40: "sqrt 10000000000000000000000000000000000000000 = 100000000000000000000"
  using real_sqrt_abs [of 100000000000000000000] by simp

lemma huge_inside: "gimp_cage_config_point_inside range_env huge_triangle 3 4"
  by (simp add: range_eval)

lemma huge_not_on_straight:
  "\<not> gimp_operation_cage_coef_calc_is_on_straight range_env (cage_vertices huge_triangle ! 0)
       (cage_vertices huge_triangle ! ((0 + 1) mod cage_vertice_number huge_triangle))
       \<lparr>vec_x = of_gint range_env 3, vec_y = of_gint range_env 4\<rparr>"
  by (simp add: gimp_operation_cage_coef_calc_is_on_straight_def deter_def range_eval Let_def
        sqrt_25 sqrt_1e40 ieee_minus_def)

lemma huge_A10: "l_A10 (edge_locals range_env huge_triangle 3 4 0) = NaN"
  by (simp add: edge_locals_def range_eval Let_def minus_f_def times_f_def plus_f_def
        ieee_minus_def)

lemma huge_term: "vertex_term_j range_env (edge_locals range_env huge_triangle 3 4 0) = NaN"
proof -
  have "times_d range_env = ieee_times" "minus_d range_env = ieee_minus"
    by (simp_all add: range_env_def exact_env_def)
  then show ?thesis
    by (simp add: vertex_term_j_def huge_A10)
qed

lemma range_nan_stays:
  "vertex_update range_env config x y i j NaN = NaN"
proof -
  have "plus_d range_env = ieee_plus" "minus_d range_env = ieee_minus"
    "to_gfloat range_env = ieee_to_gfloat"
    by (simp_all add: range_env_def exact_env_def)
  then show ?thesis
    by (simp add: vertex_update_def Let_def ieee_minus_def)
qed

lemma huge_vertex_0: "vertex_accumulate range_env huge_triangle 3 4 0 0 (Fin 0) = NaN"
proof -
  have n: "cage_vertice_number huge_triangle = Suc (Suc (Suc 0))"
    by (simp add: huge_triangle_def)
  have l: "l_v1 (edge_locals range_env huge_triangle 3 4 0) = cage_vertices huge_triangle ! 0"
    "l_v2 (edge_locals range_env huge_triangle 3 4 0)
       = cage_vertices huge_triangle ! ((0 + 1) mod cage_vertice_number huge_triangle)"
    "l_p (edge_locals range_env huge_triangle 3 4 0)
       = \<lparr>vec_x = of_gint range_env 3, vec_y = of_gint range_env 4\<rparr>"
    by (simp_all add: edge_locals_def Let_def)
  have e: "plus_d range_env = ieee_plus" "to_gfloat range_env = ieee_to_gfloat"
    by (simp_all add: range_env_def exact_env_def)
  have u0: "vertex_update range_env huge_triangle 3 4 0 0 (Fin 0) = NaN"
    unfolding vertex_update_def Let_def l
    using huge_not_on_straight by (simp add: huge_term e n)
  have a3: "vertex_accumulate range_env huge_triangle 3 4 0 (Suc (Suc (Suc 0))) NaN = NaN"
    by (subst vertex_accumulate.simps) (simp add: n)
  have a2: "vertex_accumulate range_env huge_triangle 3 4 0 (Suc (Suc 0)) NaN = NaN"
    by (subst vertex_accumulate.simps) (simp add: n range_nan_stays a3)
  have a1: "vertex_accumulate range_env huge_triangle 3 4 0 (Suc 0) NaN = NaN"
    by (subst vertex_accumulate.simps) (simp add: n range_nan_stays a2)
  show ?thesis
    by (subst vertex_accumulate.simps) (simp add: n u0 a1)
qed

text \<open>
  The claim C1 says that no NaN or infinity is ever written for a pixel inside the cage.
  For the triangle with legs of \<open>10^20\<close> and the pixel \<open>(3, 4)\<close>, the squared length
  \<open>Q\<close> of edge 0 and the product \<open>R * R\<close> exceed the range of \<open>gfloat\<close> and become
  infinite, \<open>4 S Q - R * R\<close> is a NaN, and so are \<open>SRT\<close>, \<open>A0\<close>, \<open>A1\<close> and \<open>A10\<close>. The
  pixel is not on the line of the edge, so the NaN is added to the vertex slot 0, which
  held 0 before and holds a NaN after \<open>process\<close>.
\<close>

theorem vertex_slot_nan_counterexample:
  "isnan range_env
     (snd (projr (gimp_operation_cage_coef_calc_process range_env (Some huge_triangle)
                    [one_pixel 3 4] (store_of [0, 0, 0, 0, 0, 0]))) 0)"
proof -
  have "edges_loop range_env huge_triangle 3 4 0 0 (store_of [0, 0, 0, 0, 0, 0]) 0 = NaN"
    using edges_loop_vertex_slot [of 0 huge_triangle range_env 3 4 0 0 "store_of [0, 0, 0, 0, 0, 0]"]
      huge_vertex_0
    by (simp add: huge_triangle_def store_of_def)
  moreover have "isnan range_env = ieee_isnan"
    by (simp add: range_env_def exact_env_def)
  ultimately show ?thesis
    by (simp add: process_one_pixel [OF huge_inside])
qed

text \<open>
  Claim C1, amended. In every arithmetic whose \<open>0.0\<close> is not a NaN, and for every pixel
  inside the cage, \<open>process\<close> leaves in each of the \<open>n\<close> edge slots of the pixel the value
  of the edge formula, or \<open>0.0\<close> when that value is a NaN: no edge slot holds a NaN.
\<close>

theorem process_edge_slots_not_nan:
  assumes "\<not> isnan E (to_gfloat E (of_gint E 0))"
    and "0 < rect_width (it_roi it)" and "k < it_length it"
    and "gimp_cage_config_point_inside E config (pixel_x it k) (pixel_y it k)"
    and "i < cage_vertice_number config"
    and "a = pixel_coef config it k + (i + cage_vertice_number config)"
    and "\<forall>u \<in> set before \<union> set after. a \<notin> step_slots config u"
  shows "gimp_operation_cage_coef_calc_process E (Some config) (before @ it # after) mem
           = Inr (True, iterator_loop E config (before @ it # after) mem) \<and>
         iterator_loop E config (before @ it # after) mem a
           = edge_slot_value E config (pixel_x it k) (pixel_y it k) i \<and>
         \<not> isnan E (iterator_loop E config (before @ it # after) mem a)"
proof -
  have slot: "a \<in> pixel_slots config it k"
    using assms(5,6) by (simp add: pixel_slots_def)
  have "iterator_loop E config (before @ it # after) mem a
          = edges_loop E config (pixel_x it k) (pixel_y it k) (pixel_coef config it k) 0 mem a"
    using iterator_step_slot [OF assms(2,3) slot assms(7), of E mem] assms(4) by simp
  also have "\<dots> = edge_slot_value E config (pixel_x it k) (pixel_y it k) i"
    unfolding assms(6) using edges_loop_edge_slot [OF assms(5)] by simp
  finally have v: "iterator_loop E config (before @ it # after) mem a
                     = edge_slot_value E config (pixel_x it k) (pixel_y it k) i" .
  then show ?thesis
    using edge_slot_never_nan [OF assms(1)]
    by (simp add: gimp_operation_cage_coef_calc_process_def deref_def)
qed

text \<open>
  Scenario of the specification: at the pixel \<open>(5, 0)\<close> of the triangle the formula of
  edge 0 gives a NaN and the edge slot 3 holds 0.
\<close>

theorem process_edge_slots_not_nan_witness:
  "\<not> isnan exact_env (to_gfloat exact_env (of_gint exact_env 0)) \<and>
   0 < rect_width (it_roi (one_pixel 5 0)) \<and> 0 < it_length (one_pixel 5 0) \<and>
   gimp_cage_config_point_inside exact_env triangle
     (pixel_x (one_pixel 5 0) 0) (pixel_y (one_pixel 5 0) 0) \<and>
   0 < cage_vertice_number triangle \<and>
   3 = pixel_coef triangle (one_pixel 5 0) 0 + (0 + cage_vertice_number triangle) \<and>
   iterator_loop exact_env triangle [one_pixel 5 0] (store_of [1, 2, 3, 4, 5, 6]) 3 = Fin 0 \<and>
   \<not> isnan exact_env
       (iterator_loop exact_env triangle [one_pixel 5 0] (store_of [1, 2, 3, 4, 5, 6]) 3)"
proof -
  have h: "\<not> isnan exact_env (to_gfloat exact_env (of_gint exact_env 0))"
    "0 < rect_width (it_roi (one_pixel 5 0))" "0 < it_length (one_pixel 5 0)"
    "gimp_cage_config_point_inside exact_env triangle
       (pixel_x (one_pixel 5 0) 0) (pixel_y (one_pixel 5 0) 0)"
    "0 < cage_vertice_number triangle"
    "3 = pixel_coef triangle (one_pixel 5 0) 0 + (0 + cage_vertice_number triangle)"
    "\<forall>u \<in> set [] \<union> set []. 3 \<notin> step_slots triangle u"
    by (simp_all add: env_eval pixel_x_def pixel_y_def pixel_coef_def)
  have p: "pixel_x (one_pixel 5 0) 0 = 5" "pixel_y (one_pixel 5 0) 0 = 0"
    by (simp_all add: one_pixel_def pixel_x_def pixel_y_def)
  have z: "\<not> isnan exact_env (Fin 0)"
    by (simp add: exact_env_def)
  show ?thesis
    using process_edge_slots_not_nan [OF h, of "store_of [1, 2, 3, 4, 5, 6]"] h(1-6) p
      edge_0_at_5_0 z
    by simp
qed


end
